theory Spec2Isabelle
  imports Complex_Main "HOL-Library.Char_ord" "HOL-Library.List_Lexorder"
begin

section \<open>Python values, dictionaries and the object store\<close>

text \<open>
  The configuration engine of \<^verbatim>\<open>openlane/config/config.py\<close> works on Python
  dictionaries whose values are arbitrary objects. Scalars are immediate values;
  dictionaries, lists and class instances are objects of a store and are held by
  reference, so that two dictionaries can share a nested object
  (\<^verbatim>\<open>Config.copy\<close> is a shallow copy).

  \<^item> \<open>VDec\<close> is a \<^verbatim>\<open>Decimal\<close> (the JSON loader parses fractional literals with
    \<^verbatim>\<open>parse_float=Decimal\<close>); only finite decimals are modelled, binary floats are not.
  \<^item> \<open>VPath\<close> is the \<^verbatim>\<open>Path\<close> string wrapper of \<^verbatim>\<open>openlane.state\<close>.
\<close>

type_synonym addr = nat

datatype pyval =
    VNone
  | VBool bool
  | VInt int
  | VDec rat
  | VStr string
  | VPath string
  | VRef addr

text \<open>
  Dictionary keys up to Python's key equality: \<^verbatim>\<open>1\<close>, \<^verbatim>\<open>True\<close> and
  \<^verbatim>\<open>Decimal(1)\<close> are one key, a path and its string are one key.
\<close>

datatype key = KNone | KNum rat | KStr string

type_synonym dict = "(key \<times> pyval) list"

datatype obj =
    ODict dict
  | OList "pyval list"
  | OInst "(string \<times> pyval) list"

type_synonym heap = "obj list"

datatype exn =
    TypeError | KeyError | AttributeError | AssertionError | IndexError | ValueError

text \<open>
  The messages appended to the warning and error lists. Each f-string of the source is
  a constructor that holds the interpolated values; \<open>Raised\<close> is \<^verbatim>\<open>str(e)\<close> of a
  variable's \<^verbatim>\<open>ValueError\<close> and \<open>VarWarning\<close> a warning a variable appended through
  \<^verbatim>\<open>warning_list_ref\<close>.
\<close>

datatype msg =
    DisNotAvailable pyval
  | DisDeprecated
  | SpefsInvalidType pyval
  | SpefsNotDivisible
  | SpefsDeprecated
  | Raised string
  | VarWarning string
  | Removed string string
  | UnknownKey string
  | MetaInvalid
  | PdkNotFound string
  | SimilarPdk string
  | TclDeprecated

subsection \<open>Dictionary operations\<close>

definition dget :: "key \<Rightarrow> dict \<Rightarrow> pyval option" where
  "dget k d = map_of d k"

text \<open>\<^verbatim>\<open>d[k] = v\<close>: an existing key keeps its position, a new key goes last.\<close>

fun dset :: "key \<Rightarrow> pyval \<Rightarrow> dict \<Rightarrow> dict" where
  "dset k v [] = [(k, v)]"
| "dset k v ((k', v') # d) = (if k' = k then (k, v) # d else (k', v') # dset k v d)"

text \<open>\<^verbatim>\<open>del d[k]\<close>, for a key that is there (the call sites check).\<close>

definition ddel :: "key \<Rightarrow> dict \<Rightarrow> dict" where
  "ddel k d = filter (\<lambda>kv. fst kv \<noteq> k) d"

definition dkeys :: "dict \<Rightarrow> key list" where
  "dkeys d = map fst d"

text \<open>\<^verbatim>\<open>d.get(k)\<close>, whose default is \<^verbatim>\<open>None\<close>.\<close>

definition py_get :: "key \<Rightarrow> dict \<Rightarrow> pyval" where
  "py_get k d = (case dget k d of None \<Rightarrow> VNone | Some v \<Rightarrow> v)"

subsection \<open>Built-in operations on values\<close>

fun to_key :: "pyval \<Rightarrow> exn + key" where
  "to_key VNone = Inr KNone"
| "to_key (VBool b) = Inr (KNum (if b then 1 else 0))"
| "to_key (VInt i) = Inr (KNum (of_int i))"
| "to_key (VDec r) = Inr (KNum r)"
| "to_key (VStr s) = Inr (KStr s)"
| "to_key (VPath s) = Inr (KStr s)"
| "to_key (VRef a) = Inl TypeError"

text \<open>
  Truth value of an object: empty containers and zeros are false. A reference that is
  not in the store does not occur in Python; the model gives it the default truth
  value of an object.
\<close>

fun truthy :: "heap \<Rightarrow> pyval \<Rightarrow> bool" where
  "truthy h VNone = False"
| "truthy h (VBool b) = b"
| "truthy h (VInt i) = (i \<noteq> 0)"
| "truthy h (VDec r) = (r \<noteq> 0)"
| "truthy h (VStr s) = (s \<noteq> [])"
| "truthy h (VPath s) = (s \<noteq> [])"
| "truthy h (VRef a) =
     (if a < length h
      then (case h ! a of ODict d \<Rightarrow> d \<noteq> [] | OList xs \<Rightarrow> xs \<noteq> [] | OInst _ \<Rightarrow> True)
      else True)"

text \<open>\<^verbatim>\<open>int(Decimal)\<close> truncates towards zero.\<close>

definition trunc :: "rat \<Rightarrow> int" where
  "trunc r = (if 0 \<le> r then \<lfloor>r\<rfloor> else \<lceil>r\<rceil>)"

text \<open>
  \<^verbatim>\<open>int(x)\<close>. The parser of string literals is Python's own and is a parameter:
  \<open>None\<close> is the \<^verbatim>\<open>ValueError\<close> of a string that is no integer literal.
  Containers, instances and \<^verbatim>\<open>None\<close> raise \<^verbatim>\<open>TypeError\<close>.
\<close>

fun py_int :: "(string \<Rightarrow> int option) \<Rightarrow> pyval \<Rightarrow> exn + int" where
  "py_int p VNone = Inl TypeError"
| "py_int p (VBool b) = Inr (if b then 1 else 0)"
| "py_int p (VInt i) = Inr i"
| "py_int p (VDec r) = Inr (trunc r)"
| "py_int p (VStr s) = (case p s of None \<Rightarrow> Inl ValueError | Some i \<Rightarrow> Inr i)"
| "py_int p (VPath s) = (case p s of None \<Rightarrow> Inl ValueError | Some i \<Rightarrow> Inr i)"
| "py_int p (VRef a) = Inl TypeError"

text \<open>\<^verbatim>\<open>isinstance(x, int)\<close>; \<^verbatim>\<open>bool\<close> is a subclass of \<^verbatim>\<open>int\<close>.\<close>

fun isinstance_int :: "pyval \<Rightarrow> bool" where
  "isinstance_int (VInt i) = True"
| "isinstance_int (VBool b) = True"
| "isinstance_int v = False"

text \<open>\<^verbatim>\<open>s.split(" ")\<close>: every single space separates, empty pieces are kept.\<close>

fun split_sp :: "string \<Rightarrow> string list" where
  "split_sp [] = [[]]"
| "split_sp (c # cs) =
     (if c = CHR '' '' then [] # split_sp cs
      else (case split_sp cs of [] \<Rightarrow> [[c]] | w # ws \<Rightarrow> (c # w) # ws))"

text \<open>\<^verbatim>\<open>sub in s\<close> on strings: \<open>sub\<close> occurs somewhere in \<open>s\<close>.\<close>

fun contains :: "string \<Rightarrow> string \<Rightarrow> bool" where
  "contains sub [] = (sub = [])"
| "contains sub (c # cs) = (take (length sub) (c # cs) = sub \<or> contains sub cs)"

text \<open>
  \<^verbatim>\<open>target[index] = v\<close>. A dictionary takes any hashable key; a list takes an integer
  index in range (negative indices count from the end); nothing else supports item
  assignment.
\<close>

definition list_index :: "nat \<Rightarrow> int \<Rightarrow> nat option" where
  "list_index n i =
     (let j = (if i < 0 then int n + i else i)
      in if 0 \<le> j \<and> j < int n then Some (nat j) else None)"

definition list_setitem :: "heap \<Rightarrow> addr \<Rightarrow> pyval list \<Rightarrow> int \<Rightarrow> pyval \<Rightarrow> exn + heap" where
  "list_setitem h a xs i v =
     (case list_index (length xs) i of
        None \<Rightarrow> Inl IndexError
      | Some j \<Rightarrow> Inr (h[a := OList (xs[j := v])]))"

fun py_setitem :: "heap \<Rightarrow> pyval \<Rightarrow> pyval \<Rightarrow> pyval \<Rightarrow> exn + heap" where
  "py_setitem h (VRef a) idx v =
     (if a < length h
      then (case h ! a of
              ODict d \<Rightarrow>
                (case to_key idx of
                   Inl e \<Rightarrow> Inl e
                 | Inr k \<Rightarrow> Inr (h[a := ODict (dset k v d)]))
            | OList xs \<Rightarrow>
                (case idx of
                   VInt i \<Rightarrow> list_setitem h a xs i v
                 | VBool b \<Rightarrow> list_setitem h a xs (if b then 1 else 0) v
                 | _ \<Rightarrow> Inl TypeError)
            | OInst _ \<Rightarrow> Inl TypeError)
      else Inl TypeError)"
| "py_setitem h target idx v = Inl TypeError"


section \<open>The validator: \<^verbatim>\<open>Config.process_variable_list\<close>\<close>

text \<open>
  What the validator takes from outside \<^verbatim>\<open>config.py\<close>:
  \<^item> \<open>special_keys\<close>: the values of \<^verbatim>\<open>vars(SpecialKeys).values()\<close>
    (\<^verbatim>\<open>resolve.Keys\<close>);
  \<^item> \<open>int_of_str\<close>: Python's parser of integer literals, used by \<^verbatim>\<open>int(dis)\<close>;
  \<^item> \<open>path_is_str\<close>: whether \<^verbatim>\<open>isinstance(Path(..), str)\<close> holds for the path
    wrapper of \<^verbatim>\<open>openlane.state\<close>.
\<close>

record env =
  special_keys :: "string list"
  int_of_str :: "string \<Rightarrow> int option"
  path_is_str :: bool

text \<open>
  Modelled from the spec: the class \<^verbatim>\<open>Variable\<close> of \<^verbatim>\<open>openlane/config/variable.py\<close>
  is not part of the sources at hand. The specification gives its contract: a variable
  has a unique name and a compile operation that, "given the current mutable working
  set and the set of already-finalized keys, produce[s] a normalized value or fail[s]
  with a descriptive error". The call in \<^verbatim>\<open>process_variable_list\<close> fixes the rest:
  \<^verbatim>\<open>compile\<close> returns the consumed raw key (or \<^verbatim>\<open>None\<close>) and the value, raises
  \<^verbatim>\<open>ValueError\<close> to fail, and may append to the warning list. So \<open>compile\<close> reads the
  working set, the values so far and the store, and yields the warnings it appends,
  the objects it creates (they go to the end of the store), and either the message of
  its \<^verbatim>\<open>ValueError\<close> or the key and the value. It changes no existing object.
\<close>

record var =
  name :: string
  compile :: "dict \<Rightarrow> dict \<Rightarrow> heap \<Rightarrow> string list \<times> obj list \<times> (string + string option \<times> pyval)"

text \<open>The local variables of \<^verbatim>\<open>process_variable_list\<close>, and the store.\<close>

record pstate =
  mutable :: dict
  final :: dict
  warnings :: "msg list"
  errors :: "msg list"
  heap :: heap

subsection \<open>\<^verbatim>\<open>mutable = self.copy()\<close>\<close>

text \<open>
  Modelled from the spec: \<^verbatim>\<open>GenericDict\<close> of \<^verbatim>\<open>openlane/common\<close> is not part of
  the sources at hand; the specification describes a key/value container that
  "supports shallow copy with override application". The copy is a new dictionary
  that receives the items of the receiver one by one; the values are shared. The new
  dictionary is referenced by the local variable only, so it is kept in the state and
  not in the store.
\<close>

definition copy_items :: "dict \<Rightarrow> dict" where
  "copy_items d = fold (\<lambda>kv acc. dset (fst kv) (snd kv) acc) d []"

definition config_copy :: "heap \<Rightarrow> addr \<Rightarrow> exn + dict" where
  "config_copy h self =
     (if self < length h
      then (case h ! self of ODict d \<Rightarrow> Inr (copy_items d) | _ \<Rightarrow> Inl TypeError)
      else Inl TypeError)"

subsection \<open>Migration of \<^verbatim>\<open>DIODE_INSERTION_STRATEGY\<close>\<close>

abbreviation "DIODE_INSERTION_STRATEGY \<equiv> KStr ''DIODE_INSERTION_STRATEGY''"
abbreviation "GRT_REPAIR_ANTENNAS \<equiv> KStr ''GRT_REPAIR_ANTENNAS''"
abbreviation "RUN_HEURISTIC_DIODE_INSERTION \<equiv> KStr ''RUN_HEURISTIC_DIODE_INSERTION''"
abbreviation "DIODE_ON_PORTS \<equiv> KStr ''DIODE_ON_PORTS''"
abbreviation "EXTRA_SPEFS \<equiv> KStr ''EXTRA_SPEFS''"
abbreviation "MACROS \<equiv> KStr ''MACROS''"

text \<open>
  \<^verbatim>\<open>
  try:
      dis = int(dis)
  except ValueError:
      pass
  \<close>
  Only \<^verbatim>\<open>ValueError\<close> is caught: a \<^verbatim>\<open>TypeError\<close> leaves the function.
\<close>

definition coerce_dis :: "env \<Rightarrow> pyval \<Rightarrow> exn + pyval" where
  "coerce_dis E dis =
     (case py_int (int_of_str E) dis of
        Inr i \<Rightarrow> Inr (VInt i)
      | Inl ValueError \<Rightarrow> Inr dis
      | Inl e \<Rightarrow> Inl e)"

text \<open>\<^verbatim>\<open>not isinstance(dis, int) or dis in [1, 2, 5] or dis > 6\<close>\<close>

fun dis_rejected :: "pyval \<Rightarrow> bool" where
  "dis_rejected (VInt i) = (i \<in> {1, 2, 5} \<or> i > 6)"
| "dis_rejected (VBool b) = ((if b then 1 else 0) \<in> {1, 2, 5::int} \<or> (if b then 1 else 0) > (6::int))"
| "dis_rejected v = True"

text \<open>The value of \<open>dis\<close> as an integer, for the two membership tests of the else branch.\<close>

fun dis_int :: "pyval \<Rightarrow> int" where
  "dis_int (VInt i) = i"
| "dis_int (VBool b) = (if b then 1 else 0)"
| "dis_int v = 0"

definition dis_final :: "int \<Rightarrow> dict \<Rightarrow> dict" where
  "dis_final i f =
     (let f1 = dset GRT_REPAIR_ANTENNAS (VBool False) f;
          f2 = dset RUN_HEURISTIC_DIODE_INSERTION (VBool False) f1;
          f3 = dset DIODE_ON_PORTS (VStr ''none'') f2;
          f4 = (if i \<in> {3, 6} then dset GRT_REPAIR_ANTENNAS (VBool True) f3 else f3)
      in if i \<in> {5, 6}
         then dset DIODE_ON_PORTS (VStr ''in'')
                (dset RUN_HEURISTIC_DIODE_INSERTION (VBool True) f4)
         else f4)"

definition migrate_dis :: "env \<Rightarrow> pstate \<Rightarrow> exn + pstate" where
  "migrate_dis E s =
     (if py_get DIODE_INSERTION_STRATEGY (mutable s) \<noteq> VNone
      then
        (let dis0 = py_get DIODE_INSERTION_STRATEGY (mutable s);
             s1 = s\<lparr>mutable := ddel DIODE_INSERTION_STRATEGY (mutable s)\<rparr>
         in case coerce_dis E dis0 of
              Inl e \<Rightarrow> Inl e
            | Inr dis \<Rightarrow>
                if dis_rejected dis
                then Inr (s1\<lparr>errors := errors s1 @ [DisNotAvailable dis]\<rparr>)
                else Inr (s1\<lparr>warnings := warnings s1 @ [DisDeprecated],
                              final := dis_final (dis_int dis) (final s1)\<rparr>))
      else Inr s)"

subsection \<open>Migration of \<^verbatim>\<open>EXTRA_SPEFS\<close>\<close>

definition dev_null :: string where
  "dev_null = ''/dev/null''"

text \<open>\<^verbatim>\<open>mutable["MACROS"] = mutable.get("MACROS") or {}\<close>\<close>

definition macros_or_new :: "pstate \<Rightarrow> pstate" where
  "macros_or_new s =
     (let m = py_get MACROS (mutable s)
      in if truthy (heap s) m
         then s\<lparr>mutable := dset MACROS m (mutable s)\<rparr>
         else s\<lparr>mutable := dset MACROS (VRef (length (heap s))) (mutable s),
                heap := heap s @ [ODict []]\<rparr>)"

text \<open>
  The list the loop reads: a string is split into a new list; a list is used as it is;
  anything else is the "Invalid type" error (\<open>None\<close> here).
\<close>

fun spef_list :: "env \<Rightarrow> heap \<Rightarrow> pyval \<Rightarrow> (addr \<times> heap) option" where
  "spef_list E h (VStr s) = Some (length h, h @ [OList (map VStr (split_sp s))])"
| "spef_list E h (VPath s) =
     (if path_is_str E then Some (length h, h @ [OList (map VStr (split_sp s))]) else None)"
| "spef_list E h (VRef a) =
     (if a < length h then (case h ! a of OList xs \<Rightarrow> Some (a, h) | _ \<Rightarrow> None) else None)"
| "spef_list E h v = None"

definition list_len :: "heap \<Rightarrow> addr \<Rightarrow> nat" where
  "list_len h a = (if a < length h then (case h ! a of OList xs \<Rightarrow> length xs | _ \<Rightarrow> 0) else 0)"

text \<open>
  One round of the loop, for the quadruple that starts at \<open>start\<close>. The new objects,
  in the order Python creates them: the list \<^verbatim>\<open>["/dev/null"]\<close>, the macro
  dictionary, the three one-element lists and the \<^verbatim>\<open>spef\<close> dictionary.
\<close>

definition macro_objects :: "nat \<Rightarrow> pyval \<Rightarrow> pyval \<Rightarrow> pyval \<Rightarrow> pyval \<Rightarrow> obj list" where
  "macro_objects b mdl mn nom mx =
     [OList [VStr dev_null],
      ODict [(KStr ''module'', mdl), (KStr ''gds'', VRef b), (KStr ''spef'', VRef (b + 5))],
      OList [mn], OList [nom], OList [mx],
      ODict [(KStr ''min_*'', VRef (b + 2)), (KStr ''nom_*'', VRef (b + 3)),
             (KStr ''max_*'', VRef (b + 4))]]"

definition translate_macro :: "addr \<Rightarrow> pyval \<Rightarrow> nat \<Rightarrow> heap \<Rightarrow> exn + heap" where
  "translate_macro l macros start h =
     (if l < length h
      then (case h ! l of
              OList xs \<Rightarrow>
                if start + 3 < length xs
                then py_setitem
                       (h @ macro_objects (length h) (xs ! start) (xs ! (start + 1))
                              (xs ! (start + 2)) (xs ! (start + 3)))
                       macros (xs ! start) (VRef (length h + 1))
                else Inl IndexError
            | _ \<Rightarrow> Inl TypeError)
      else Inl TypeError)"

text \<open>\<^verbatim>\<open>for i in range(len(extra_spef_list) // 4)\<close>, \<open>n\<close> rounds from \<open>start\<close>.\<close>

fun translate_macros :: "addr \<Rightarrow> pyval \<Rightarrow> nat \<Rightarrow> nat \<Rightarrow> heap \<Rightarrow> exn + heap" where
  "translate_macros l macros start 0 h = Inr h"
| "translate_macros l macros start (Suc n) h =
     (case translate_macro l macros start h of
        Inl e \<Rightarrow> Inl e
      | Inr h' \<Rightarrow> translate_macros l macros (start + 4) n h')"

definition migrate_spefs :: "env \<Rightarrow> pstate \<Rightarrow> exn + pstate \<times> bool" where
  "migrate_spefs E s =
     (if py_get EXTRA_SPEFS (mutable s) \<noteq> VNone
      then
        (let s1 = macros_or_new s;
             extra = py_get EXTRA_SPEFS (mutable s1);
             s2 = s1\<lparr>mutable := ddel EXTRA_SPEFS (mutable s1)\<rparr>
         in case spef_list E (heap s2) extra of
              None \<Rightarrow> Inr (s2\<lparr>errors := errors s2 @ [SpefsInvalidType extra]\<rparr>, False)
            | Some (l, h) \<Rightarrow>
                if list_len h l mod 4 \<noteq> 0
                then Inr (s2\<lparr>errors := errors s2 @ [SpefsNotDivisible], heap := h\<rparr>, False)
                else (case translate_macros l (py_get MACROS (mutable s2)) 0
                             (list_len h l div 4) h of
                        Inl e \<Rightarrow> Inl e
                      | Inr h' \<Rightarrow>
                          Inr (s2\<lparr>warnings := warnings s2 @ [SpefsDeprecated],
                                   heap := h'\<rparr>, True)))
      else Inr (s, False))"


subsection \<open>The loop over the variables\<close>

text \<open>
  \<^verbatim>\<open>
  try:
      key, value_processed = variable.compile(mutable_config=mutable,
          warning_list_ref=warnings, values_so_far=final)
      if key is not None:
          del mutable[key]
      final[variable.name] = value_processed
  except ValueError as e:
      errors.append(str(e))
  \<close>
  \<^verbatim>\<open>del\<close> of a key that is not in the working set raises \<^verbatim>\<open>KeyError\<close>, which is
  not caught.
\<close>

definition compile_variable :: "var \<Rightarrow> pstate \<Rightarrow> exn + pstate" where
  "compile_variable v s =
     (case compile v (mutable s) (final s) (heap s) of
        (ws, objs, r) \<Rightarrow>
          (let s1 = s\<lparr>warnings := warnings s @ map VarWarning ws, heap := heap s @ objs\<rparr>
           in case r of
                Inl e \<Rightarrow> Inr (s1\<lparr>errors := errors s1 @ [Raised e]\<rparr>)
              | Inr (None, value) \<Rightarrow>
                  Inr (s1\<lparr>final := dset (KStr (name v)) value (final s1)\<rparr>)
              | Inr (Some k, value) \<Rightarrow>
                  if KStr k \<in> set (dkeys (mutable s1))
                  then Inr (s1\<lparr>mutable := ddel (KStr k) (mutable s1),
                                final := dset (KStr (name v)) value (final s1)\<rparr>)
                  else Inl KeyError))"

fun compile_variables :: "var list \<Rightarrow> pstate \<Rightarrow> exn + pstate" where
  "compile_variables [] s = Inr s"
| "compile_variables (v # vs) s =
     (case compile_variable v s of
        Inl e \<Rightarrow> Inl e
      | Inr s' \<Rightarrow> compile_variables vs s')"

subsection \<open>The keys that are left\<close>

fun is_KStr :: "key \<Rightarrow> bool" where
  "is_KStr (KStr s) = True"
| "is_KStr k = False"

fun is_KNum :: "key \<Rightarrow> bool" where
  "is_KNum (KNum r) = True"
| "is_KNum k = False"

fun key_str :: "key \<Rightarrow> string" where
  "key_str (KStr s) = s"
| "key_str k = []"

text \<open>
  \<^verbatim>\<open>for key in sorted(mutable.keys()): assert isinstance(key, str)\<close>. With string
  keys only, the keys come in the order of their code points. A key that is no string
  fails the assertion if \<^verbatim>\<open>sorted\<close> can order the keys (one key, or numbers only);
  otherwise \<^verbatim>\<open>sorted\<close> itself raises \<^verbatim>\<open>TypeError\<close>.
\<close>

definition sorted_keys :: "key list \<Rightarrow> exn + string list" where
  "sorted_keys ks =
     (if list_all is_KStr ks then Inr (sort (map key_str ks))
      else if length ks \<le> 1 \<or> list_all is_KNum ks then Inl AssertionError
      else Inl TypeError)"

text \<open>
  \<^verbatim>\<open>
  if key in vars(SpecialKeys).values():
      continue
  if key in removed:
      warnings.append(f"'{key}' has been removed: {removed[key]}")
  elif "_OPT" not in key and key != "//":
      warnings.append(f"Unknown key '{key}' provided.")
  \<close>
\<close>

definition leftover_warning :: "string list \<Rightarrow> (string \<rightharpoonup> string) \<Rightarrow> string \<Rightarrow> msg list" where
  "leftover_warning special removed k =
     (if k \<in> set special then []
      else (case removed k of
              Some note \<Rightarrow> [Removed k note]
            | None \<Rightarrow> if \<not> contains ''_OPT'' k \<and> k \<noteq> ''//'' then [UnknownKey k] else []))"

fun leftover_warnings :: "string list \<Rightarrow> (string \<rightharpoonup> string) \<Rightarrow> string list \<Rightarrow> msg list" where
  "leftover_warnings special removed [] = []"
| "leftover_warnings special removed (k # ks) =
     leftover_warning special removed k @ leftover_warnings special removed ks"

definition leftover :: "env \<Rightarrow> (string \<rightharpoonup> string) \<Rightarrow> pstate \<Rightarrow> exn + pstate" where
  "leftover E removed s =
     (case sorted_keys (dkeys (mutable s)) of
        Inl e \<Rightarrow> Inl e
      | Inr ks \<Rightarrow>
          Inr (s\<lparr>warnings := warnings s @ leftover_warnings (special_keys E) removed ks\<rparr>))"

subsection \<open>The placeholder of the translated macros\<close>

text \<open>
  \<^verbatim>\<open>
  if translated_macros:
      for macro in final["MACROS"].values():
          if macro.gds == "/dev/null":
              macro.gds = Path("")
  \<close>
  \<^verbatim>\<open>final["MACROS"]\<close> raises \<^verbatim>\<open>KeyError\<close> when no variable of that name was
  compiled; only a dictionary has \<^verbatim>\<open>values()\<close> and only an instance with the
  attribute has \<^verbatim>\<open>gds\<close>. A string and a path of the same text are equal.
\<close>

fun aset :: "string \<Rightarrow> pyval \<Rightarrow> (string \<times> pyval) list \<Rightarrow> (string \<times> pyval) list" where
  "aset k v [] = [(k, v)]"
| "aset k v ((k', v') # d) = (if k' = k then (k, v) # d else (k', v') # aset k v d)"

definition eq_str :: "pyval \<Rightarrow> string \<Rightarrow> bool" where
  "eq_str v s = (v = VStr s \<or> v = VPath s)"

definition normalize_macro :: "pyval \<Rightarrow> heap \<Rightarrow> exn + heap" where
  "normalize_macro macro h =
     (case macro of
        VRef b \<Rightarrow>
          (if b < length h
           then (case h ! b of
                   OInst attrs \<Rightarrow>
                     (case map_of attrs ''gds'' of
                        None \<Rightarrow> Inl AttributeError
                      | Some g \<Rightarrow>
                          if eq_str g dev_null
                          then Inr (h[b := OInst (aset ''gds'' (VPath []) attrs)])
                          else Inr h)
                 | _ \<Rightarrow> Inl AttributeError)
           else Inl AttributeError)
      | _ \<Rightarrow> Inl AttributeError)"

fun normalize_all :: "pyval list \<Rightarrow> heap \<Rightarrow> exn + heap" where
  "normalize_all [] h = Inr h"
| "normalize_all (m # ms) h =
     (case normalize_macro m h of
        Inl e \<Rightarrow> Inl e
      | Inr h' \<Rightarrow> normalize_all ms h')"

definition dict_values :: "heap \<Rightarrow> pyval \<Rightarrow> exn + pyval list" where
  "dict_values h v =
     (case v of
        VRef a \<Rightarrow>
          (if a < length h
           then (case h ! a of ODict d \<Rightarrow> Inr (map snd d) | _ \<Rightarrow> Inl AttributeError)
           else Inl AttributeError)
      | _ \<Rightarrow> Inl AttributeError)"

definition normalize_macros :: "pstate \<Rightarrow> exn + pstate" where
  "normalize_macros s =
     (case dget MACROS (final s) of
        None \<Rightarrow> Inl KeyError
      | Some m \<Rightarrow>
          (case dict_values (heap s) m of
             Inl e \<Rightarrow> Inl e
           | Inr ms \<Rightarrow>
               (case normalize_all ms (heap s) of
                  Inl e \<Rightarrow> Inl e
                | Inr h \<Rightarrow> Inr (s\<lparr>heap := h\<rparr>))))"

subsection \<open>The whole pass\<close>

definition init_state :: "dict \<Rightarrow> heap \<Rightarrow> pstate" where
  "init_state m h = \<lparr>mutable = m, final = [], warnings = [], errors = [], heap = h\<rparr>"

text \<open>\<^verbatim>\<open>if removed is None: removed = {}\<close>\<close>

definition removed_or_empty :: "(string \<rightharpoonup> string) option \<Rightarrow> (string \<rightharpoonup> string)" where
  "removed_or_empty removed = (case removed of None \<Rightarrow> Map.empty | Some r \<Rightarrow> r)"

text \<open>
  The stages after the copy, on the local state: the two migrations of legacy keys
  (the flag is \<^verbatim>\<open>translated_macros\<close>), then the loop over the variables, the
  pass over the keys that are left and the placeholder of the translated macros.
  The result is the state at the \<^verbatim>\<open>return\<close>.
\<close>

definition migrate :: "env \<Rightarrow> pstate \<Rightarrow> exn + pstate \<times> bool" where
  "migrate E s0 =
     (case migrate_dis E s0 of
        Inl e \<Rightarrow> Inl e
      | Inr s1 \<Rightarrow> migrate_spefs E s1)"

definition validate ::
  "env \<Rightarrow> var list \<Rightarrow> (string \<rightharpoonup> string) \<Rightarrow> pstate \<Rightarrow> bool \<Rightarrow> exn + pstate" where
  "validate E variables removed s2 translated_macros =
     (case compile_variables variables s2 of
        Inl e \<Rightarrow> Inl e
      | Inr s3 \<Rightarrow>
          (case leftover E removed s3 of
             Inl e \<Rightarrow> Inl e
           | Inr s4 \<Rightarrow>
               if translated_macros then normalize_macros s4 else Inr s4))"

definition run_stages :: "env \<Rightarrow> var list \<Rightarrow> (string \<rightharpoonup> string) \<Rightarrow> pstate \<Rightarrow> exn + pstate" where
  "run_stages E variables removed s0 =
     (case migrate E s0 of
        Inl e \<Rightarrow> Inl e
      | Inr (s2, translated_macros) \<Rightarrow> validate E variables removed s2 translated_macros)"


fun spefs_error :: "msg \<Rightarrow> bool" where
  "spefs_error (SpefsInvalidType v) = True"
| "spefs_error SpefsNotDivisible = True"
| "spefs_error e = False"

text \<open>
  \<^verbatim>\<open>self.process_variable_list(variables, removed)\<close> on the store \<open>h\<close>, with the
  receiver at \<open>self\<close>. It returns \<^verbatim>\<open>(Config(final), warnings, errors)\<close> and the store it
  leaves, or the exception that escapes.
\<close>

definition process_variable_list ::
  "env \<Rightarrow> heap \<Rightarrow> addr \<Rightarrow> var list \<Rightarrow> (string \<rightharpoonup> string) option
     \<Rightarrow> exn + dict \<times> msg list \<times> msg list \<times> heap" where
  "process_variable_list E h self variables removed =
     (case config_copy h self of
        Inl e \<Rightarrow> Inl e
      | Inr m \<Rightarrow>
          (case run_stages E variables (removed_or_empty removed) (init_state m h) of
             Inl e \<Rightarrow> Inl e
           | Inr s \<Rightarrow> Inr (copy_items (final s), warnings s, errors s, heap s)))"

section \<open>Reading records back from the store\<close>

text \<open>
  Observations on a store, used to state what the migration of \<^verbatim>\<open>EXTRA_SPEFS\<close>
  builds: the dictionary or the list a value refers to, and the content of a macro
  record \<^verbatim>\<open>{"module": m, "gds": [..], "spef": {"min_*": [..], "nom_*": [..],
  "max_*": [..]}}\<close> as the tuple of the module and the four lists.
\<close>

definition dict_at :: "heap \<Rightarrow> pyval \<Rightarrow> dict option" where
  "dict_at h v =
     (case v of
        VRef a \<Rightarrow> (if a < length h then (case h ! a of ODict d \<Rightarrow> Some d | _ \<Rightarrow> None) else None)
      | _ \<Rightarrow> None)"







section \<open>The load pipeline: \<^verbatim>\<open>Config.load\<close> and its loaders\<close>

text \<open>
  The pipeline reads files, evaluates scripts and reports warnings through the logger.
  These effects are recorded in a trace, in the order in which they happen; the
  objects live in the store of the validator.
\<close>

datatype event =
    FileRead string
  | PathExists string
  | IsDir string
  | GlobPattern string
  | TclEval
  | LogInfo string
  | LogWarn msg

fun file_access :: "event \<Rightarrow> bool" where
  "file_access (FileRead p) = True"
| "file_access (PathExists p) = True"
| "file_access (IsDir p) = True"
| "file_access (GlobPattern p) = True"
| "file_access e = False"

text \<open>
  What the pipeline raises: the aggregated error \<^verbatim>\<open>InvalidConfig(config, warnings,
  errors)\<close>, the \<^verbatim>\<open>ValueError\<close>s and \<^verbatim>\<open>TypeError\<close>s that \<^verbatim>\<open>config.py\<close> raises
  itself, an exception that escapes from a Python operation of \<^verbatim>\<open>config.py\<close>, and
  an exception of a collaborator (the file system, the JSON parser, the script
  evaluator, \<^verbatim>\<open>resolve\<close>).
\<close>

datatype load_error =
    InvalidConfig string "msg list" "msg list"
  | PdkRequired
  | PdkRootRequired
  | DesignDirNotSupported
  | DesignDirRequired
  | DesignFolderUnsupported
  | UnsupportedExtension string string
  | Escaped exn
  | External string

record world =
  store :: heap
  trace :: "event list"

type_synonym 'a io = "world \<Rightarrow> (load_error + 'a) \<times> world"

definition io_return :: "'a \<Rightarrow> 'a io" where
  "io_return x w = (Inr x, w)"

definition io_raise :: "load_error \<Rightarrow> 'a io" where
  "io_raise e w = (Inl e, w)"

definition io_bind :: "'a io \<Rightarrow> ('a \<Rightarrow> 'b io) \<Rightarrow> 'b io" where
  "io_bind m f w = (case m w of (Inl e, w') \<Rightarrow> (Inl e, w') | (Inr x, w') \<Rightarrow> f x w')"

definition io_event :: "event \<Rightarrow> unit io" where
  "io_event ev w = (Inr (), w\<lparr>trace := trace w @ [ev]\<rparr>)"

definition io_alloc :: "obj \<Rightarrow> addr io" where
  "io_alloc ob w = (Inr (length (store w)), w\<lparr>store := store w @ [ob]\<rparr>)"

text \<open>\<^verbatim>\<open>for warning in warnings: warn(warning)\<close>\<close>

fun io_warn_all :: "msg list \<Rightarrow> unit io" where
  "io_warn_all [] = io_return ()"
| "io_warn_all (m # ms) = io_bind (io_event (LogWarn m)) (\<lambda>_. io_warn_all ms)"

text \<open>
  The collaborators of \<^verbatim>\<open>config.py\<close> that are not part of the sources at hand, as
  parameters: the file system, \<^verbatim>\<open>os.path\<close>, Volare, the JSON parser, the script
  evaluator \<^verbatim>\<open>env_from_tcl\<close>, \<^verbatim>\<open>resolve\<close> with all its context,
  \<^verbatim>\<open>migrate_old_config\<close>, the variable lists and removed tables of \<^verbatim>\<open>pdk.py\<close> and
  \<^verbatim>\<open>flow.py\<close>, and the names of the special keys. \<open>None\<close> is an exception of the
  collaborator.
\<close>

record sys =
  validator :: env
  fs_read :: "string \<Rightarrow> string option"
  fs_exists :: "string \<Rightarrow> bool"
  fs_isdir :: "string \<Rightarrow> bool"
  fs_glob :: "string \<Rightarrow> string list"
  abspath :: "string \<Rightarrow> string"
  dirname :: "string \<Rightarrow> string"
  basename :: "string \<Rightarrow> string"
  splitext :: "string \<Rightarrow> string"
  path_join :: "string list \<Rightarrow> string"
  volare_home :: "(string option \<Rightarrow> string) option"
  json_loads :: "string \<Rightarrow> heap \<Rightarrow> (pyval \<times> obj list) option"
  env_from_tcl :: "dict \<Rightarrow> string \<Rightarrow> dict option"
  resolve :: "dict \<Rightarrow> pyval \<Rightarrow> string \<Rightarrow> pyval \<Rightarrow> string \<Rightarrow> heap \<Rightarrow> (dict \<times> obj list) option"
  migrate_old_config :: "dict \<Rightarrow> dict"
  pdk_variables :: "var list"
  removed_variables :: "string \<rightharpoonup> string"
  pdk_removed_variables :: "string \<rightharpoonup> string"
  key_pdk :: string
  key_scl :: string
  key_pdk_root :: string
  key_design_dir :: string

definition read_file :: "sys \<Rightarrow> string \<Rightarrow> string io" where
  "read_file S p =
     io_bind (io_event (FileRead p))
       (\<lambda>_. case fs_read S p of None \<Rightarrow> io_raise (External ''OSError'') | Some t \<Rightarrow> io_return t)"

definition path_exists :: "sys \<Rightarrow> string \<Rightarrow> bool io" where
  "path_exists S p = io_bind (io_event (PathExists p)) (\<lambda>_. io_return (fs_exists S p))"

definition is_dir :: "sys \<Rightarrow> string \<Rightarrow> bool io" where
  "is_dir S p = io_bind (io_event (IsDir p)) (\<lambda>_. io_return (fs_isdir S p))"

definition glob :: "sys \<Rightarrow> string \<Rightarrow> string list io" where
  "glob S p = io_bind (io_event (GlobPattern p)) (\<lambda>_. io_return (fs_glob S p))"

definition eval_tcl :: "sys \<Rightarrow> dict \<Rightarrow> string \<Rightarrow> dict io" where
  "eval_tcl S vars text =
     io_bind (io_event TclEval)
       (\<lambda>_. case env_from_tcl S vars text of
               None \<Rightarrow> io_raise (External ''env_from_tcl'')
             | Some e \<Rightarrow> io_return e)"

text \<open>
  A call of \<^verbatim>\<open>process_variable_list\<close> on the store of the world. An exception that
  escapes from it ends the pipeline; the store it leaves is then of no use and is not
  kept.
\<close>

definition io_process ::
  "sys \<Rightarrow> addr \<Rightarrow> var list \<Rightarrow> (string \<rightharpoonup> string) \<Rightarrow> (dict \<times> msg list \<times> msg list) io" where
  "io_process S self vs removed w =
     (case process_variable_list (validator S) (store w) self vs (Some removed) of
        Inl e \<Rightarrow> (Inl (Escaped e), w)
      | Inr (cfg, ws, es, h') \<Rightarrow> (Inr (cfg, ws, es), w\<lparr>store := h'\<rparr>))"

text \<open>
  \<^verbatim>\<open>Config(copying, overrides=overrides)\<close>: a new object with the items of
  \<open>copying\<close>, then those of \<open>overrides\<close>.
\<close>

definition with_overrides :: "dict \<Rightarrow> dict \<Rightarrow> dict" where
  "with_overrides copying overrides =
     fold (\<lambda>kv acc. dset (fst kv) (snd kv) acc) overrides (copy_items copying)"

subsection \<open>\<^verbatim>\<open>_resolve_pdk_root\<close>\<close>

definition resolve_pdk_root :: "sys \<Rightarrow> string option \<Rightarrow> string io" where
  "resolve_pdk_root S pdk_root =
     (case volare_home S of
        Some home \<Rightarrow> io_return (abspath S (home pdk_root))
      | None \<Rightarrow>
          (case pdk_root of
             None \<Rightarrow> io_raise PdkRootRequired
           | Some r \<Rightarrow> io_return (abspath S r)))"

subsection \<open>\<^verbatim>\<open>_get_pdk_config\<close>\<close>

text \<open>
  The technology name and the library name are joined into paths, which needs strings:
  \<^verbatim>\<open>os.path.join\<close> raises \<^verbatim>\<open>TypeError\<close> on anything else.
\<close>

definition as_str :: "pyval \<Rightarrow> string io" where
  "as_str v = (case v of VStr s \<Rightarrow> io_return s | _ \<Rightarrow> io_raise (Escaped TypeError))"

definition pdk_config_dict :: "sys \<Rightarrow> string \<Rightarrow> pyval \<Rightarrow> string option \<Rightarrow> dict" where
  "pdk_config_dict S pdk_root pdk scl =
     (let d = dset (KStr (key_pdk S)) pdk (dset (KStr (key_pdk_root S)) (VStr pdk_root) [])
      in case scl of None \<Rightarrow> d | Some l \<Rightarrow> dset (KStr (key_scl S)) (VStr l) d)"

definition pdk_not_found :: "sys \<Rightarrow> string \<Rightarrow> string \<Rightarrow> (dict \<times> string \<times> pyval) io" where
  "pdk_not_found S pdk pdkpath =
     io_bind (glob S (pdkpath @ ''*''))
       (\<lambda>matches. io_raise (InvalidConfig ''PDK configuration''
                               (map (\<lambda>m. SimilarPdk (basename S m)) matches)
                               [PdkNotFound pdk]))"

definition pdk_report :: "bool \<Rightarrow> msg list \<Rightarrow> unit io" where
  "pdk_report full_pdk_warnings pdk_warnings =
     (if length pdk_warnings > 0 \<and> full_pdk_warnings
      then io_bind
             (io_event (LogInfo ''Loading the PDK configuration files has generated the following warnings:''))
             (\<lambda>_. io_warn_all pdk_warnings)
      else io_return ())"

definition get_pdk_config ::
  "sys \<Rightarrow> pyval \<Rightarrow> string option \<Rightarrow> string \<Rightarrow> bool \<Rightarrow> (dict \<times> string \<times> pyval) io" where
  "get_pdk_config S pdk scl pdk_root full_pdk_warnings =
     io_bind (as_str pdk) (\<lambda>pdk_name.
     let pdkpath = path_join S [pdk_root, pdk_name] in
     io_bind (path_exists S pdkpath) (\<lambda>found.
     if \<not> found then pdk_not_found S pdk_name pdkpath
     else
       io_bind (read_file S (path_join S [pdkpath, ''libs.tech'', ''openlane'', ''config.tcl'']))
         (\<lambda>pdk_text.
       io_bind (eval_tcl S (pdk_config_dict S pdk_root pdk scl) pdk_text) (\<lambda>pdk_env.
       case dget (KStr ''STD_CELL_LIBRARY'') pdk_env of
         None \<Rightarrow> io_raise (Escaped KeyError)
       | Some VNone \<Rightarrow> io_raise (Escaped AssertionError)
       | Some scl' \<Rightarrow>
           io_bind (as_str scl') (\<lambda>scl_name.
           io_bind (read_file S
                      (path_join S [pdkpath, ''libs.tech'', ''openlane'', scl_name, ''config.tcl'']))
             (\<lambda>scl_text.
           io_bind (eval_tcl S pdk_env scl_text) (\<lambda>scl_env.
           io_bind (io_alloc (ODict (copy_items (migrate_old_config S scl_env)))) (\<lambda>self.
           io_bind (io_process S self (pdk_variables S) (pdk_removed_variables S))
             (\<lambda>(config_in, pdk_warnings, pdk_errors).
           if length pdk_errors \<noteq> 0
           then io_raise (InvalidConfig ''PDK configuration files'' pdk_warnings pdk_errors)
           else io_bind (pdk_report full_pdk_warnings pdk_warnings)
                  (\<lambda>_. io_return (config_in, pdkpath, scl')))))))))))"

subsection \<open>The design layer\<close>

text \<open>\<^verbatim>\<open>key, value = string.split("=", 1)\<close>; without a \<^verbatim>\<open>=\<close> the unpacking fails.\<close>

fun split_eq :: "string \<Rightarrow> (string \<times> string) option" where
  "split_eq [] = None"
| "split_eq (c # cs) =
     (if c = CHR ''='' then Some ([], cs)
      else (case split_eq cs of None \<Rightarrow> None | Some (k, v) \<Rightarrow> Some (c # k, v)))"

text \<open>
  \<^verbatim>\<open>for string in config_override_strings: ...; raw[key] = value\<close> on a dictionary.
\<close>

fun apply_overrides :: "string list \<Rightarrow> dict \<Rightarrow> exn + dict" where
  "apply_overrides [] raw = Inr raw"
| "apply_overrides (s # ss) raw =
     (case split_eq s of
        None \<Rightarrow> Inl ValueError
      | Some (k, v) \<Rightarrow> apply_overrides ss (dset (KStr k) (VStr v) raw))"

text \<open>
  Modelled from the spec: \<^verbatim>\<open>resolve\<close> of \<^verbatim>\<open>openlane/config/resolve.py\<close> is not part
  of the sources at hand. With \<^verbatim>\<open>only_extract_process_info=True\<close> it is the first
  phase of the specification's two-phase resolver: "extract a small fixed key set with
  no validation", the special keys (technology name, technology root, library name,
  design directory).
\<close>

definition extract_process_info :: "sys \<Rightarrow> dict \<Rightarrow> dict" where
  "extract_process_info S raw =
     filter (\<lambda>kv. fst kv \<in> {KStr (key_pdk S), KStr (key_pdk_root S), KStr (key_scl S),
                             KStr (key_design_dir S)}) raw"

text \<open>
  \<^verbatim>\<open>pdk = process_info.get(SpecialKeys.pdk) or pdk\<close>; the result \<open>VNone\<close> is
  \<^verbatim>\<open>None\<close>.
\<close>

definition choose_pdk :: "sys \<Rightarrow> heap \<Rightarrow> dict \<Rightarrow> string option \<Rightarrow> pyval" where
  "choose_pdk S h process_info pdk =
     (if truthy h (py_get (KStr (key_pdk S)) process_info)
      then py_get (KStr (key_pdk S)) process_info
      else (case pdk of None \<Rightarrow> VNone | Some p \<Rightarrow> VStr p))"

text \<open>
  The metadata of a configuration: \<^verbatim>\<open>Meta(version=1, flow="Classic")\<close> by default.
  \<^verbatim>\<open>Meta(**meta_raw)\<close> raises \<^verbatim>\<open>TypeError\<close> unless \<open>meta_raw\<close> is a dictionary whose
  keys are among \<^verbatim>\<open>version\<close> and \<^verbatim>\<open>flow\<close>.
\<close>

record meta =
  version :: pyval
  flow :: pyval

definition default_meta :: meta where
  "default_meta = \<lparr>version = VInt 1, flow = VStr ''Classic''\<rparr>"

definition make_meta :: "heap \<Rightarrow> pyval \<Rightarrow> meta option" where
  "make_meta h meta_raw =
     (case dict_at h meta_raw of
        None \<Rightarrow> None
      | Some d \<Rightarrow>
          if list_all (\<lambda>k. k = KStr ''version'' \<or> k = KStr ''flow'') (dkeys d)
          then Some \<lparr>version = (case dget (KStr ''version'') d of None \<Rightarrow> VInt 1 | Some v \<Rightarrow> v),
                     flow = (case dget (KStr ''flow'') d of None \<Rightarrow> VStr ''Classic'' | Some v \<Rightarrow> v)\<rparr>
          else None)"

record config =
  config_values :: dict
  config_meta :: meta

text \<open>
  The end of \<^verbatim>\<open>_load_dict\<close>, after the call of \<^verbatim>\<open>process_variable_list\<close>:
  \<^verbatim>\<open>
  if meta_raw is not None:
      try:
          config_in.meta = Meta(**meta_raw)
      except TypeError as e:
          design_errors.append(f"'meta' object is invalid: {e}")
  if len(design_errors) != 0:
      raise InvalidConfig("design configuration file", design_warnings, design_errors)
  if len(design_warnings) > 0:
      info("Loading the design configuration file has generated the following warnings:")
  for warning in design_warnings:
      warn(warning)
  return config_in
  \<close>
\<close>

definition design_meta :: "heap \<Rightarrow> pyval \<Rightarrow> meta \<times> msg list" where
  "design_meta h meta_raw =
     (if meta_raw \<noteq> VNone
      then (case make_meta h meta_raw of
              Some m \<Rightarrow> (m, [])
            | None \<Rightarrow> (default_meta, [MetaInvalid]))
      else (default_meta, []))"

definition design_report :: "msg list \<Rightarrow> unit io" where
  "design_report design_warnings =
     (if length design_warnings > 0
      then io_bind
             (io_event (LogInfo ''Loading the design configuration file has generated the following warnings:''))
             (\<lambda>_. io_warn_all design_warnings)
      else io_warn_all design_warnings)"

definition finish_design :: "dict \<times> msg list \<times> msg list \<Rightarrow> pyval \<Rightarrow> config io" where
  "finish_design r meta_raw w =
     (case r of
        (config_in, design_warnings, errors0) \<Rightarrow>
          (case design_meta (store w) meta_raw of
             (m, meta_errors) \<Rightarrow>
               (let design_errors = errors0 @ meta_errors
                in if length design_errors \<noteq> 0
                   then io_raise (InvalidConfig ''design configuration file''
                                    design_warnings design_errors) w
                   else io_bind (design_report design_warnings)
                          (\<lambda>_. io_return \<lparr>config_values = config_in, config_meta = m\<rparr>) w)))"

subsection \<open>\<^verbatim>\<open>_load_dict\<close>\<close>

text \<open>
  \<open>raw\<close> is the address of the raw dictionary; the deletion of \<^verbatim>\<open>meta\<close> and the
  overrides change this object in place. Anything but a dictionary has no \<^verbatim>\<open>get\<close>.
\<close>

definition take_meta :: "dict \<Rightarrow> pyval \<times> dict" where
  "take_meta d =
     (if py_get (KStr ''meta'') d \<noteq> VNone
      then (py_get (KStr ''meta'') d, ddel (KStr ''meta'') d)
      else (VNone, d))"

definition prepare_raw :: "addr \<Rightarrow> string list \<Rightarrow> (pyval \<times> dict) io" where
  "prepare_raw raw config_override_strings w =
     (if raw < length (store w)
      then (case store w ! raw of
              ODict d0 \<Rightarrow>
                (case take_meta d0 of
                   (meta_raw, d1) \<Rightarrow>
                     (case apply_overrides config_override_strings d1 of
                        Inl e \<Rightarrow> (Inl (Escaped e), w)
                      | Inr d2 \<Rightarrow>
                          (Inr (meta_raw, d2), w\<lparr>store := (store w)[raw := ODict d2]\<rparr>)))
            | _ \<Rightarrow> (Inl (Escaped AttributeError), w))
      else (Inl (Escaped AttributeError), w))"

definition io_resolve ::
  "sys \<Rightarrow> dict \<Rightarrow> pyval \<Rightarrow> string \<Rightarrow> pyval \<Rightarrow> string \<Rightarrow> dict io" where
  "io_resolve S raw pdk pdkpath scl design_dir w =
     (case resolve S raw pdk pdkpath scl design_dir (store w) of
        None \<Rightarrow> (Inl (External ''resolve''), w)
      | Some (d, objs) \<Rightarrow> (Inr d, w\<lparr>store := store w @ objs\<rparr>))"

text \<open>
  The part of \<^verbatim>\<open>_load_dict\<close> after the technology layer is loaded: the design layer
  is resolved, laid over the technology layer and validated.
\<close>

definition design_layer ::
  "sys \<Rightarrow> dict \<Rightarrow> pyval \<Rightarrow> string \<Rightarrow> var list \<Rightarrow> pyval \<Rightarrow> dict \<times> string \<times> pyval
     \<Rightarrow> config io" where
  "design_layer S d meta_raw design_dir flow_config_vars pdk' r =
     (case r of
        (config_in, pdkpath, scl') \<Rightarrow>
          (case dget (KStr (key_scl S)) config_in of
             None \<Rightarrow> io_raise (Escaped KeyError)
           | Some scl_value \<Rightarrow>
               io_bind (io_resolve S d pdk' pdkpath scl_value design_dir) (\<lambda>overrides.
               io_bind (io_alloc (ODict (with_overrides config_in overrides))) (\<lambda>self.
               io_bind (io_process S self (pdk_variables S @ flow_config_vars)
                          (removed_variables S))
                 (\<lambda>r. finish_design r meta_raw)))))"

definition load_dict ::
  "sys \<Rightarrow> addr \<Rightarrow> string \<Rightarrow> var list \<Rightarrow> string list \<Rightarrow> string \<Rightarrow> string option
     \<Rightarrow> string option \<Rightarrow> bool \<Rightarrow> config io" where
  "load_dict S raw design_dir flow_config_vars config_override_strings pdk_root pdk scl
       full_pdk_warnings =
     io_bind (prepare_raw raw config_override_strings) (\<lambda>(meta_raw, d).
     (\<lambda>w.
       (let pdk' = choose_pdk S (store w) (extract_process_info S d) pdk
        in if pdk' = VNone then io_raise PdkRequired w
           else io_bind (get_pdk_config S pdk' scl pdk_root full_pdk_warnings)
                  (design_layer S d meta_raw design_dir flow_config_vars pdk') w)))"

subsection \<open>\<^verbatim>\<open>_loads\<close>\<close>

definition loads ::
  "sys \<Rightarrow> string \<Rightarrow> string \<Rightarrow> var list \<Rightarrow> string list \<Rightarrow> string \<Rightarrow> string option
     \<Rightarrow> string option \<Rightarrow> config io" where
  "loads S json_str design_dir flow_config_vars config_override_strings pdk_root pdk scl w =
     (case json_loads S json_str (store w) of
        None \<Rightarrow> (Inl (External ''JSONDecodeError''), w)
      | Some (VRef raw, objs) \<Rightarrow>
          load_dict S raw design_dir flow_config_vars config_override_strings pdk_root pdk scl
            False (w\<lparr>store := store w @ objs\<rparr>)
      | Some (v, objs) \<Rightarrow> (Inl (Escaped AttributeError), w\<lparr>store := store w @ objs\<rparr>))"

subsection \<open>\<^verbatim>\<open>_loads_tcl\<close>\<close>

definition tcl_vars :: "sys \<Rightarrow> string \<Rightarrow> pyval \<Rightarrow> pyval \<Rightarrow> string \<Rightarrow> dict" where
  "tcl_vars S pdk_root pdk scl design_dir =
     dset (KStr (key_design_dir S)) (VStr design_dir)
       (dset (KStr (key_scl S)) scl
          (dset (KStr (key_pdk S)) pdk (dset (KStr (key_pdk_root S)) (VStr pdk_root) [])))"

definition finish_tcl :: "dict \<times> msg list \<times> msg list \<Rightarrow> config io" where
  "finish_tcl r =
     (case r of
        (config_in, design_warnings, design_errors) \<Rightarrow>
          if length design_errors \<noteq> 0
          then io_raise (InvalidConfig ''design configuration file''
                           design_warnings design_errors)
          else io_bind (design_report design_warnings)
                 (\<lambda>_. io_return \<lparr>config_values = config_in, config_meta = default_meta\<rparr>))"

definition pdk_arg :: "string option \<Rightarrow> pyval" where
  "pdk_arg pdk = (case pdk of None \<Rightarrow> VNone | Some p \<Rightarrow> VStr p)"

text \<open>
  The part of \<^verbatim>\<open>_loads_tcl\<close> after the technology layer is loaded: the script is
  evaluated again, laid over the technology layer, and only then are the override
  strings applied, to the merged configuration.
\<close>

definition tcl_design_layer ::
  "sys \<Rightarrow> string \<Rightarrow> string \<Rightarrow> var list \<Rightarrow> string list \<Rightarrow> string \<Rightarrow> pyval
     \<Rightarrow> dict \<times> string \<times> pyval \<Rightarrow> config io" where
  "tcl_design_layer S config_text design_dir flow_config_vars config_override_strings pdk_root
       pdk' r =
     (case r of
        (config_in, pdkpath, scl') \<Rightarrow>
          io_bind (eval_tcl S (tcl_vars S pdk_root pdk' scl' design_dir) config_text)
            (\<lambda>design_config.
          case apply_overrides config_override_strings
                 (with_overrides config_in design_config) of
            Inl e \<Rightarrow> io_raise (Escaped e)
          | Inr merged \<Rightarrow>
              io_bind (io_alloc (ODict merged)) (\<lambda>self.
              io_bind (io_process S self (pdk_variables S @ flow_config_vars)
                         (removed_variables S))
                finish_tcl)))"

definition loads_tcl ::
  "sys \<Rightarrow> string \<Rightarrow> string \<Rightarrow> var list \<Rightarrow> string list \<Rightarrow> string \<Rightarrow> string option
     \<Rightarrow> string option \<Rightarrow> bool \<Rightarrow> config io" where
  "loads_tcl S config_text design_dir flow_config_vars config_override_strings pdk_root0 pdk scl
       full_pdk_warnings =
     io_bind (io_event (LogWarn TclDeprecated)) (\<lambda>_.
     io_bind (resolve_pdk_root S (Some pdk_root0)) (\<lambda>pdk_root.
     io_bind (eval_tcl S (tcl_vars S pdk_root (pdk_arg pdk) (VStr []) design_dir) config_text)
       (\<lambda>tcl_config.
     (\<lambda>w.
       (let pdk' = choose_pdk S (store w) (extract_process_info S tcl_config) pdk
        in if pdk' = VNone then io_raise PdkRequired w
           else io_bind (get_pdk_config S pdk' scl pdk_root full_pdk_warnings)
                  (tcl_design_layer S config_text design_dir flow_config_vars
                     config_override_strings pdk_root pdk') w)))))"

subsection \<open>\<^verbatim>\<open>load\<close>\<close>

text \<open>
  The input is a path or a dictionary (its address). \<^verbatim>\<open>s.endswith(suffix)\<close> on
  strings.
\<close>

datatype source = FromPath string | FromDict addr

definition ends_with :: "string \<Rightarrow> string \<Rightarrow> bool" where
  "ends_with s suffix = (length suffix \<le> length s \<and> drop (length s - length suffix) s = suffix)"

definition or_empty :: "string list option \<Rightarrow> string list" where
  "or_empty xs = (case xs of None \<Rightarrow> [] | Some ys \<Rightarrow> ys)"

definition unsupported_path :: "sys \<Rightarrow> string \<Rightarrow> (config \<times> string) io" where
  "unsupported_path S p =
     io_bind (is_dir S p)
       (\<lambda>dir. if dir then io_raise DesignFolderUnsupported
               else io_raise (UnsupportedExtension (splitext S p) p))"

definition load ::
  "sys \<Rightarrow> source \<Rightarrow> var list \<Rightarrow> string list option \<Rightarrow> string option \<Rightarrow> string option
     \<Rightarrow> string option \<Rightarrow> string option \<Rightarrow> (config \<times> string) io" where
  "load S config_in flow_config_vars config_override_strings pdk pdk_root scl design_dir =
     (case config_in of
        FromPath path \<Rightarrow>
          (case design_dir of
             Some dd \<Rightarrow> io_raise DesignDirNotSupported
           | None \<Rightarrow>
               (let p = abspath S path; dd = dirname S p in
                if ends_with p ''.json''
                then io_bind (read_file S p) (\<lambda>raw.
                     io_bind (resolve_pdk_root S pdk_root) (\<lambda>root.
                     io_bind (loads S raw dd flow_config_vars (or_empty config_override_strings)
                                root pdk scl)
                       (\<lambda>loaded. io_return (loaded, dd))))
                else if ends_with p ''.tcl''
                then io_bind (read_file S p) (\<lambda>raw.
                     io_bind (resolve_pdk_root S pdk_root) (\<lambda>root.
                     io_bind (loads_tcl S raw dd flow_config_vars
                                (or_empty config_override_strings) root pdk scl False)
                       (\<lambda>loaded. io_return (loaded, dd))))
                else unsupported_path S p))
      | FromDict raw \<Rightarrow>
          (case design_dir of
             None \<Rightarrow> io_raise DesignDirRequired
           | Some dd \<Rightarrow>
               io_bind (resolve_pdk_root S pdk_root) (\<lambda>root.
               io_bind (load_dict S raw dd flow_config_vars (or_empty config_override_strings)
                          root pdk scl False)
                 (\<lambda>loaded. io_return (loaded, dd)))))"

section \<open>A sample environment\<close>

text \<open>
  Concrete parameters on which the model can be run: a parser of plain decimal
  literals with an optional sign (a part of what Python's \<^verbatim>\<open>int\<close> accepts), the
  special keys of the OpenLane sources, and two simple variables.
\<close>

definition digit_of :: "char \<Rightarrow> nat option" where
  "digit_of c =
     (if CHR ''0'' \<le> c \<and> c \<le> CHR ''9''
      then Some (of_char c - of_char CHR ''0'') else None)"

fun digits_value :: "nat \<Rightarrow> string \<Rightarrow> nat option" where
  "digits_value acc [] = Some acc"
| "digits_value acc (c # cs) =
     (case digit_of c of None \<Rightarrow> None | Some d \<Rightarrow> digits_value (10 * acc + d) cs)"

fun decimal_literal :: "string \<Rightarrow> int option" where
  "decimal_literal [] = None"
| "decimal_literal (c # cs) =
     (if c = CHR ''-'' then (if cs = [] then None else map_option (\<lambda>n. - int n) (digits_value 0 cs))
      else if c = CHR ''+'' then (if cs = [] then None else map_option int (digits_value 0 cs))
      else map_option int (digits_value 0 (c # cs)))"

definition env0 :: env where
  "env0 = \<lparr>special_keys = [''PDK_ROOT'', ''PDK'', ''PDKPATH'', ''STD_CELL_LIBRARY'', ''DESIGN_DIR''],
            int_of_str = decimal_literal,
            path_is_str = False\<rparr>"

text \<open>
  A variable that takes the raw value under its own name as it is and fails when the
  key is missing.
\<close>

definition plain_var :: "string \<Rightarrow> var" where
  "plain_var n =
     \<lparr>name = n,
      compile = (\<lambda>m f h. ([], [],
                   (case dget (KStr n) m of
                      None \<Rightarrow> Inl (n @ '' is required'')
                    | Some v \<Rightarrow> Inr (Some n, v))))\<rparr>"

text \<open>A variable with a default: a missing key gives the default and consumes nothing.\<close>

definition default_var :: "string \<Rightarrow> pyval \<Rightarrow> var" where
  "default_var n dflt =
     \<lparr>name = n,
      compile = (\<lambda>m f h. ([], [],
                   (case dget (KStr n) m of
                      None \<Rightarrow> Inr (None, dflt)
                    | Some v \<Rightarrow> Inr (Some n, v))))\<rparr>"







text \<open>A receiver with the legacy strategy key, and the variable list of its passes.\<close>

definition strategy_heap :: heap where
  "strategy_heap =
     [ODict [(DIODE_INSERTION_STRATEGY, VInt 3), (KStr ''DESIGN_NAME'', VStr ''spm'')]]"

definition strategy_final :: dict where
  "strategy_final =
     [(GRT_REPAIR_ANTENNAS, VBool True), (RUN_HEURISTIC_DIODE_INSERTION, VBool False),
      (DIODE_ON_PORTS, VStr ''none''), (KStr ''DESIGN_NAME'', VStr ''spm'')]"

text \<open>
  A small system: two design files, an empty technology root, Volare installed, a JSON
  parser that knows the empty object, a script evaluator that returns the variables it
  is given, and a \<^verbatim>\<open>resolve\<close> that returns the raw mapping.
\<close>

fun join_paths :: "string list \<Rightarrow> string" where
  "join_paths [] = []"
| "join_paths [p] = p"
| "join_paths (p # ps) = p @ ''/'' @ join_paths ps"

definition sys0 :: sys where
  "sys0 =
     \<lparr>validator = env0,
      fs_read = (\<lambda>p. if p = ''/design/config.json'' then Some ''{}''
                      else if p = ''/design/config.tcl'' then Some [] else None),
      fs_exists = (\<lambda>p. False),
      fs_isdir = (\<lambda>p. False),
      fs_glob = (\<lambda>p. []),
      abspath = (\<lambda>p. p),
      dirname = (\<lambda>p. ''/design''),
      basename = (\<lambda>p. p),
      splitext = (\<lambda>p. []),
      path_join = join_paths,
      volare_home = Some (\<lambda>r. case r of None \<Rightarrow> ''/pdks'' | Some x \<Rightarrow> x),
      json_loads = (\<lambda>text h. if text = ''{}'' then Some (VRef (length h), [ODict []]) else None),
      env_from_tcl = (\<lambda>vars text. Some vars),
      resolve = (\<lambda>raw pdk pdkpath scl design_dir h. Some (raw, [])),
      migrate_old_config = (\<lambda>d. d),
      pdk_variables = [],
      removed_variables = Map.empty,
      pdk_removed_variables = Map.empty,
      key_pdk = ''PDK'',
      key_scl = ''STD_CELL_LIBRARY'',
      key_pdk_root = ''PDK_ROOT'',
      key_design_dir = ''DESIGN_DIR''\<rparr>"

definition world0 :: world where
  "world0 = \<lparr>store = [], trace = []\<rparr>"


section \<open>Facts about dictionaries\<close>

lemma dget_dset_same: "dget k (dset k v d) = Some v"
  by (induction d) (auto simp: dget_def)

lemma dget_dset_other: "k' \<noteq> k \<Longrightarrow> dget k' (dset k v d) = dget k' d"
  by (induction d) (auto simp: dget_def)

lemma dkeys_dset: "set (dkeys (dset k v d)) = insert k (set (dkeys d))"
proof (induction d)
  case Nil
  show ?case by (simp add: dkeys_def)
next
  case (Cons kv d)
  obtain k' v' where kv: "kv = (k', v')" by (cases kv)
  show ?case
  proof (cases "k' = k")
    case True
    with kv show ?thesis by (simp add: dkeys_def)
  next
    case False
    with kv Cons show ?thesis by (simp add: dkeys_def insert_commute)
  qed
qed

lemma distinct_dset: "distinct (dkeys d) \<Longrightarrow> distinct (dkeys (dset k v d))"
proof (induction d)
  case Nil
  then show ?case by (simp add: dkeys_def)
next
  case (Cons kv d)
  have "set (dkeys (dset k v d)) = insert k (set (dkeys d))" by (rule dkeys_dset)
  with Cons show ?case by (cases kv) (auto simp: dkeys_def)
qed

lemma dkeys_ddel: "set (dkeys (ddel k d)) = set (dkeys d) - {k}"
  unfolding dkeys_def ddel_def by (induction d) auto

lemma distinct_ddel: "distinct (dkeys d) \<Longrightarrow> distinct (dkeys (ddel k d))"
  by (simp add: dkeys_def ddel_def distinct_map_filter)

lemma dget_ddel_same: "dget k (ddel k d) = None"
  by (induction d) (auto simp: dget_def ddel_def)

lemma dget_ddel_other: "k' \<noteq> k \<Longrightarrow> dget k' (ddel k d) = dget k' d"
  by (induction d) (auto simp: dget_def ddel_def)

lemma dget_None_iff: "dget k d = None \<longleftrightarrow> k \<notin> set (dkeys d)"
  by (simp add: dget_def dkeys_def map_of_eq_None_iff)

lemma fold_dset_distinct:
  "distinct (dkeys acc) \<Longrightarrow>
   distinct (dkeys (fold (\<lambda>kv acc. dset (fst kv) (snd kv) acc) d acc))"
  by (induction d arbitrary: acc) (simp_all add: distinct_dset)

lemma distinct_copy_items: "distinct (dkeys (copy_items d))"
  unfolding copy_items_def by (rule fold_dset_distinct) (simp add: dkeys_def)

lemma dset_append_new: "k \<notin> set (dkeys d) \<Longrightarrow> dset k v d = d @ [(k, v)]"
  unfolding dkeys_def by (induction d) auto

lemma fold_dset_append:
  "distinct (dkeys d) \<Longrightarrow> set (dkeys d) \<inter> set (dkeys acc) = {} \<Longrightarrow>
   fold (\<lambda>kv acc. dset (fst kv) (snd kv) acc) d acc = acc @ d"
proof (induction d arbitrary: acc)
  case Nil
  then show ?case by simp
next
  case (Cons kv d)
  from Cons.prems have new: "fst kv \<notin> set (dkeys acc)" by (auto simp: dkeys_def)
  have step: "dset (fst kv) (snd kv) acc = acc @ [kv]"
    using dset_append_new [OF new, of "snd kv"] by simp
  from Cons.prems have d: "distinct (dkeys d)" by (simp add: dkeys_def)
  from Cons.prems have disj: "set (dkeys d) \<inter> set (dkeys (acc @ [kv])) = {}"
    by (auto simp: dkeys_def)
  show ?case using Cons.IH [OF d disj] step by simp
qed

lemma copy_items_distinct_id: "distinct (dkeys d) \<Longrightarrow> copy_items d = d"
  unfolding copy_items_def using fold_dset_append [of d "[]"] by (simp add: dkeys_def)

lemma dkeys_fold_dset:
  "set (dkeys (fold (\<lambda>kv acc. dset (fst kv) (snd kv) acc) d acc)) =
          set (dkeys d) \<union> set (dkeys acc)"
proof (induction d arbitrary: acc)
  case Nil
  then show ?case by (simp add: dkeys_def)
next
  case (Cons kv d)
  show ?case using Cons.IH [of "dset (fst kv) (snd kv) acc"]
    by (simp add: dkeys_dset) (auto simp: dkeys_def)
qed

lemma dkeys_copy_items: "set (dkeys (copy_items d)) = set (dkeys d)"
  using dkeys_fold_dset [of d "[]"] by (simp add: copy_items_def dkeys_def)


section \<open>Migration of the diode insertion strategy\<close>



lemma migrate_dis_rejected:
  assumes "py_get DIODE_INSERTION_STRATEGY (mutable s) \<noteq> VNone"
      and "coerce_dis E (py_get DIODE_INSERTION_STRATEGY (mutable s)) = Inr d"
      and "dis_rejected d"
  shows "migrate_dis E s =
           Inr (s\<lparr>mutable := ddel DIODE_INSERTION_STRATEGY (mutable s),
                  errors := errors s @ [DisNotAvailable d]\<rparr>)"
  using assms by (simp add: migrate_dis_def Let_def)


lemma migrate_dis_absent:
  "py_get DIODE_INSERTION_STRATEGY (mutable s) = VNone \<Longrightarrow> migrate_dis E s = Inr s"
  by (simp add: migrate_dis_def)





text \<open>
  C4 (as stated, refuted). The claim says that the strategy value 5 migrates without
  an error to antenna repair off, heuristic diode insertion on, ports "in". The guard
  \<^verbatim>\<open>dis in [1, 2, 5]\<close> rejects 5 before the membership test \<^verbatim>\<open>dis in [5, 6]\<close> is
  reached.
\<close>

theorem strategy_five_counterexample:
  "\<not> (\<exists>s. migrate_dis env0 (init_state [(DIODE_INSERTION_STRATEGY, VInt 5)] []) = Inr s \<and>
          errors s = [] \<and>
          dget GRT_REPAIR_ANTENNAS (final s) = Some (VBool False) \<and>
          dget RUN_HEURISTIC_DIODE_INSERTION (final s) = Some (VBool True) \<and>
          dget DIODE_ON_PORTS (final s) = Some (VStr ''in''))"
  by (simp add: migrate_dis_def init_state_def py_get_def dget_def coerce_dis_def Let_def)

text \<open>
  C4 (amended). A strategy whose value after the integer coercion is 5 is rejected:
  the migration records exactly one error, no warning, and sets none of the three
  modern keys.
\<close>

theorem strategy_five_rejected:
  assumes "py_get DIODE_INSERTION_STRATEGY m \<noteq> VNone"
      and "coerce_dis E (py_get DIODE_INSERTION_STRATEGY m) = Inr (VInt 5)"
  shows "\<exists>s. migrate_dis E (init_state m h) = Inr s \<and>
             errors s = [DisNotAvailable (VInt 5)] \<and> warnings s = [] \<and> final s = [] \<and>
             mutable s = ddel DIODE_INSERTION_STRATEGY m"
proof -
  have m: "mutable (init_state m h) = m" by (simp add: init_state_def)
  have "migrate_dis E (init_state m h) =
          Inr ((init_state m h)\<lparr>mutable := ddel DIODE_INSERTION_STRATEGY m,
                 errors := errors (init_state m h) @ [DisNotAvailable (VInt 5)]\<rparr>)"
    using migrate_dis_rejected [of "init_state m h" E "VInt 5"] assms m by simp
  then show ?thesis by (simp add: init_state_def)
qed

theorem strategy_five_rejected_witness:
  "py_get DIODE_INSERTION_STRATEGY [(DIODE_INSERTION_STRATEGY, VInt 5)] \<noteq> VNone \<and>
   coerce_dis env0 (py_get DIODE_INSERTION_STRATEGY [(DIODE_INSERTION_STRATEGY, VInt 5)])
     = Inr (VInt 5) \<and>
   (\<exists>s. migrate_dis env0 (init_state [(DIODE_INSERTION_STRATEGY, VInt 5)] []) = Inr s \<and>
        errors s = [DisNotAvailable (VInt 5)] \<and> warnings s = [] \<and> final s = [] \<and>
        mutable s = [])"
proof -
  have p: "py_get DIODE_INSERTION_STRATEGY [(DIODE_INSERTION_STRATEGY, VInt 5)] \<noteq> VNone"
    by (simp add: py_get_def dget_def)
  have c: "coerce_dis env0 (py_get DIODE_INSERTION_STRATEGY [(DIODE_INSERTION_STRATEGY, VInt 5)])
             = Inr (VInt 5)"
    by (simp add: py_get_def dget_def coerce_dis_def)
  from strategy_five_rejected [OF p c, of "[]"] p c show ?thesis by (simp add: ddel_def)
qed


section \<open>What each stage changes\<close>

lemma migrate_dis_cases:
  assumes "migrate_dis E s = Inr s'"
  shows "(py_get DIODE_INSERTION_STRATEGY (mutable s) = VNone \<and> s' = s) \<or>
         (py_get DIODE_INSERTION_STRATEGY (mutable s) \<noteq> VNone \<and>
          (\<exists>d. coerce_dis E (py_get DIODE_INSERTION_STRATEGY (mutable s)) = Inr d \<and>
               s' = (if dis_rejected d
                     then s\<lparr>mutable := ddel DIODE_INSERTION_STRATEGY (mutable s),
                            errors := errors s @ [DisNotAvailable d]\<rparr>
                     else s\<lparr>mutable := ddel DIODE_INSERTION_STRATEGY (mutable s),
                            warnings := warnings s @ [DisDeprecated],
                            final := dis_final (dis_int d) (final s)\<rparr>)))"
  using assms by (auto simp: migrate_dis_def Let_def split: sum.splits if_splits)



lemma migrate_dis_warnings:
  "migrate_dis E s = Inr s' \<Longrightarrow>
   warnings s' = warnings s \<or> warnings s' = warnings s @ [DisDeprecated]"
  by (drule migrate_dis_cases) (auto split: if_splits)

lemma dkeys_dis_final:
  "set (dkeys (dis_final i f)) =
     set (dkeys f) \<union> {GRT_REPAIR_ANTENNAS, RUN_HEURISTIC_DIODE_INSERTION, DIODE_ON_PORTS}"
  by (auto simp: dis_final_def Let_def dkeys_dset)

lemma distinct_dis_final: "distinct (dkeys f) \<Longrightarrow> distinct (dkeys (dis_final i f))"
  by (simp add: dis_final_def Let_def distinct_dset)

lemma migrate_dis_final_keys:
  "migrate_dis E s = Inr s' \<Longrightarrow>
   set (dkeys (final s')) \<subseteq>
     set (dkeys (final s)) \<union> {GRT_REPAIR_ANTENNAS, RUN_HEURISTIC_DIODE_INSERTION, DIODE_ON_PORTS}"
  by (drule migrate_dis_cases) (auto simp: dkeys_dis_final split: if_splits)

lemma migrate_dis_distinct:
  "migrate_dis E s = Inr s' \<Longrightarrow> distinct (dkeys (mutable s)) \<Longrightarrow> distinct (dkeys (mutable s'))"
  by (drule migrate_dis_cases) (auto simp: distinct_ddel split: if_splits)

lemma migrate_dis_final_distinct:
  "migrate_dis E s = Inr s' \<Longrightarrow> distinct (dkeys (final s)) \<Longrightarrow> distinct (dkeys (final s'))"
  by (drule migrate_dis_cases) (auto simp: distinct_dis_final split: if_splits)

lemma macros_or_new_fields:
  "final (macros_or_new s) = final s" "warnings (macros_or_new s) = warnings s"
  "errors (macros_or_new s) = errors s"
  "\<exists>mv. mutable (macros_or_new s) = dset MACROS mv (mutable s)"
  "\<exists>objs. heap (macros_or_new s) = heap s @ objs"
  by (auto simp: macros_or_new_def Let_def)

lemma migrate_spefs_cases:
  assumes "migrate_spefs E s = Inr (s', t)"
  shows "(py_get EXTRA_SPEFS (mutable s) = VNone \<and> s' = s \<and> \<not> t) \<or>
         (py_get EXTRA_SPEFS (mutable s) \<noteq> VNone \<and>
          (\<exists>mv. mutable s' = ddel EXTRA_SPEFS (dset MACROS mv (mutable s))) \<and>
          final s' = final s \<and>
          warnings s' = warnings s @ (if t then [SpefsDeprecated] else []) \<and>
          (if t then errors s' = errors s
           else \<exists>e. errors s' = errors s @ [e] \<and> spefs_error e))"
proof (cases "py_get EXTRA_SPEFS (mutable s) = VNone")
  case True
  with assms show ?thesis by (simp add: migrate_spefs_def)
next
  case False
  obtain mv where mv: "mutable (macros_or_new s) = dset MACROS mv (mutable s)"
    using macros_or_new_fields(4) by blast
  from assms False have
    "(\<exists>mv. mutable s' = ddel EXTRA_SPEFS (dset MACROS mv (mutable s))) \<and>
          final s' = final s \<and>
          warnings s' = warnings s @ (if t then [SpefsDeprecated] else []) \<and>
          (if t then errors s' = errors s
           else \<exists>e. errors s' = errors s @ [e] \<and> spefs_error e)"
    using mv
    by (auto simp: migrate_spefs_def Let_def macros_or_new_fields
             split: option.splits if_splits sum.splits prod.splits)
  with False show ?thesis by simp
qed

lemma migrate_spefs_final: "migrate_spefs E s = Inr (s', t) \<Longrightarrow> final s' = final s"
  by (drule migrate_spefs_cases) auto


lemma migrate_spefs_distinct:
  assumes "migrate_spefs E s = Inr (s', t)" and "distinct (dkeys (mutable s))"
  shows "distinct (dkeys (mutable s'))"
  using migrate_spefs_cases [OF assms(1)] assms(2) by (auto simp: distinct_ddel distinct_dset)

lemma compile_variable_cases:
  assumes "compile_variable v s = Inr s'"
  shows "\<exists>ws objs r. compile v (mutable s) (final s) (heap s) = (ws, objs, r) \<and>
           warnings s' = warnings s @ map VarWarning ws \<and>
           heap s' = heap s @ objs \<and>
           ((\<exists>e. r = Inl e \<and> errors s' = errors s @ [Raised e] \<and> mutable s' = mutable s \<and>
                 final s' = final s) \<or>
            (\<exists>value. r = Inr (None, value) \<and> errors s' = errors s \<and>
                 final s' = dset (KStr (name v)) value (final s) \<and> mutable s' = mutable s) \<or>
            (\<exists>key value. r = Inr (Some key, value) \<and> errors s' = errors s \<and>
                 final s' = dset (KStr (name v)) value (final s) \<and>
                 KStr key \<in> set (dkeys (mutable s)) \<and>
                 mutable s' = ddel (KStr key) (mutable s)))"
  using assms
  by (auto simp: compile_variable_def Let_def
           split: prod.splits sum.splits option.splits if_splits)




lemma compile_variable_distinct:
  "compile_variable v s = Inr s' \<Longrightarrow> distinct (dkeys (mutable s)) \<Longrightarrow>
   distinct (dkeys (mutable s'))"
  by (drule compile_variable_cases) (auto simp: distinct_ddel)

lemma compile_variable_final_keys:
  "compile_variable v s = Inr s' \<Longrightarrow>
   set (dkeys (final s')) \<subseteq> insert (KStr (name v)) (set (dkeys (final s)))"
  by (drule compile_variable_cases) (auto simp: dkeys_dset)

lemma compile_variable_warnings:
  "compile_variable v s = Inr s' \<Longrightarrow> \<exists>ws. warnings s' = warnings s @ map VarWarning ws"
  by (drule compile_variable_cases) auto



lemma compile_variables_distinct:
  "compile_variables vs s = Inr s' \<Longrightarrow> distinct (dkeys (mutable s)) \<Longrightarrow>
   distinct (dkeys (mutable s'))"
proof (induction vs arbitrary: s)
  case Nil
  then show ?case by simp
next
  case (Cons v vs)
  then obtain s1 where 1: "compile_variable v s = Inr s1" and 2: "compile_variables vs s1 = Inr s'"
    by (auto split: sum.splits)
  from compile_variable_distinct [OF 1 Cons.prems(2)] Cons.IH [OF 2] show ?case by blast
qed

lemma compile_variables_final_keys:
  "compile_variables vs s = Inr s' \<Longrightarrow>
   set (dkeys (final s')) \<subseteq> set (dkeys (final s)) \<union> (\<lambda>v. KStr (name v)) ` set vs"
proof (induction vs arbitrary: s)
  case Nil
  then show ?case by simp
next
  case (Cons v vs)
  then obtain s1 where 1: "compile_variable v s = Inr s1" and 2: "compile_variables vs s1 = Inr s'"
    by (auto split: sum.splits)
  from compile_variable_final_keys [OF 1] Cons.IH [OF 2] show ?case by auto
qed

lemma compile_variables_warnings:
  "compile_variables vs s = Inr s' \<Longrightarrow> \<exists>ws. warnings s' = warnings s @ map VarWarning ws"
proof (induction vs arbitrary: s)
  case Nil
  then show ?case by simp
next
  case (Cons v vs)
  then obtain s1 where 1: "compile_variable v s = Inr s1" and 2: "compile_variables vs s1 = Inr s'"
    by (auto split: sum.splits)
  from compile_variable_warnings [OF 1] obtain w1 where "warnings s1 = warnings s @ map VarWarning w1"
    by blast
  moreover from Cons.IH [OF 2] obtain w2 where "warnings s' = warnings s1 @ map VarWarning w2"
    by blast
  ultimately have "warnings s' = warnings s @ map VarWarning (w1 @ w2)" by simp
  then show ?case by blast
qed





subsection \<open>The pass over the keys that are left\<close>

lemma key_str_inj: "is_KStr a \<Longrightarrow> is_KStr b \<Longrightarrow> key_str a = key_str b \<Longrightarrow> a = b"
  by (cases a; cases b) auto

lemma KStr_key_str: "is_KStr a \<Longrightarrow> KStr (key_str a) = a"
  by (cases a) auto

lemma sorted_keys_cases:
  assumes "sorted_keys ks = Inr strs"
  shows "strs = sort (map key_str ks) \<and> list_all is_KStr ks"
  using assms by (auto simp: sorted_keys_def split: if_splits)

lemma sorted_keys_set:
  assumes "sorted_keys ks = Inr strs"
  shows "k \<in> set strs \<longleftrightarrow> KStr k \<in> set ks"
proof -
  from sorted_keys_cases [OF assms] have strs: "set strs = key_str ` set ks"
    and all: "\<forall>a\<in>set ks. is_KStr a"
    by (auto simp: list_all_iff)
  show ?thesis
  proof
    assume "k \<in> set strs"
    with strs obtain a where a: "a \<in> set ks" "k = key_str a" by auto
    with all have "KStr k = a" by (simp add: KStr_key_str)
    with a show "KStr k \<in> set ks" by simp
  next
    assume "KStr k \<in> set ks"
    then have "key_str (KStr k) \<in> key_str ` set ks" by (rule imageI)
    with strs show "k \<in> set strs" by simp
  qed
qed

lemma sorted_keys_distinct:
  assumes "sorted_keys ks = Inr strs" and "distinct ks"
  shows "distinct strs"
proof -
  from sorted_keys_cases [OF assms(1)] have strs: "strs = sort (map key_str ks)"
    and all: "\<forall>a\<in>set ks. is_KStr a"
    by (auto simp: list_all_iff)
  have "inj_on key_str (set ks)"
    using all by (auto intro!: inj_onI key_str_inj)
  with assms(2) have "distinct (map key_str ks)" by (simp add: distinct_map)
  with strs show ?thesis by simp
qed

lemma leftover_warning_unknown:
  "count_list (leftover_warning special removed k') (UnknownKey k) =
     (if k' = k \<and> k \<notin> set special \<and> removed k = None \<and> \<not> contains ''_OPT'' k \<and> k \<noteq> ''//''
      then 1 else 0)"
  by (auto simp: leftover_warning_def split: option.splits)

lemma leftover_warnings_unknown:
  "count_list (leftover_warnings special removed ks) (UnknownKey k) =
     (if k \<notin> set special \<and> removed k = None \<and> \<not> contains ''_OPT'' k \<and> k \<noteq> ''//''
      then count_list ks k else 0)"
  by (induction ks) (auto simp: leftover_warning_unknown)

lemma leftover_warning_removed:
  "count_list (leftover_warning special removed k') (Removed k note) =
     (if k' = k \<and> k \<notin> set special \<and> removed k = Some note then 1 else 0)"
  by (auto simp: leftover_warning_def split: option.splits)

lemma leftover_warnings_removed:
  "count_list (leftover_warnings special removed ks) (Removed k note) =
     (if k \<notin> set special \<and> removed k = Some note then count_list ks k else 0)"
  by (induction ks) (auto simp: leftover_warning_removed)

lemma count_list_distinct: "distinct xs \<Longrightarrow> count_list xs x = (if x \<in> set xs then 1 else 0)"
  by (induction xs) auto

lemma count_list_map_VarWarning: "count_list (map VarWarning ws) (UnknownKey k) = 0"
  by (induction ws) auto

lemma leftover_cases:
  assumes "leftover E removed s = Inr s'"
  shows "\<exists>ks. sorted_keys (dkeys (mutable s)) = Inr ks \<and>
              s' = s\<lparr>warnings := warnings s @ leftover_warnings (special_keys E) removed ks\<rparr>"
  using assms by (auto simp: leftover_def split: sum.splits)

lemma normalize_macros_cases:
  assumes "normalize_macros s = Inr s'"
  shows "\<exists>h. s' = s\<lparr>heap := h\<rparr>"
  using assms by (auto simp: normalize_macros_def split: option.splits sum.splits)

lemma validate_cases:
  assumes "validate E vs removed s2 t = Inr s'"
  shows "\<exists>s3 ks. compile_variables vs s2 = Inr s3 \<and>
           sorted_keys (dkeys (mutable s3)) = Inr ks \<and>
           warnings s' = warnings s3 @ leftover_warnings (special_keys E) removed ks \<and>
           mutable s' = mutable s3 \<and> final s' = final s3 \<and> errors s' = errors s3 \<and>
           (if t then normalize_macros
                        (s3\<lparr>warnings := warnings s3 @ leftover_warnings (special_keys E) removed ks\<rparr>)
                      = Inr s'
            else heap s' = heap s3)"
proof -
  from assms obtain s3 where 3: "compile_variables vs s2 = Inr s3"
    by (auto simp: validate_def split: sum.splits)
  with assms obtain s4 where 4: "leftover E removed s3 = Inr s4"
    and 5: "(if t then normalize_macros s4 else Inr s4) = Inr s'"
    by (auto simp: validate_def split: sum.splits)
  from leftover_cases [OF 4] obtain ks where ks: "sorted_keys (dkeys (mutable s3)) = Inr ks"
    and s4: "s4 = s3\<lparr>warnings := warnings s3 @ leftover_warnings (special_keys E) removed ks\<rparr>"
    by blast
  show ?thesis
  proof (cases t)
    case True
    with 5 have n: "normalize_macros s4 = Inr s'" by simp
    from normalize_macros_cases [OF n] obtain h where "s' = s4\<lparr>heap := h\<rparr>" by blast
    with 3 ks s4 n True show ?thesis by simp
  next
    case False
    with 5 have "s' = s4" by simp
    with 3 ks s4 False show ?thesis by simp
  qed
qed

lemma run_stages_cases:
  assumes "run_stages E vs removed s0 = Inr s'"
  shows "\<exists>s1 s2 t. migrate_dis E s0 = Inr s1 \<and> migrate_spefs E s1 = Inr (s2, t) \<and>
           migrate E s0 = Inr (s2, t) \<and> validate E vs removed s2 t = Inr s'"
  using assms by (auto simp: run_stages_def migrate_def split: sum.splits prod.splits)


section \<open>Unknown keys\<close>

lemma no_unknown_before_leftover:
  assumes d: "migrate_dis E (init_state m h) = Inr s1"
      and sp: "migrate_spefs E s1 = Inr (s2, t)"
      and c: "compile_variables vs s2 = Inr s3"
  shows "count_list (warnings s3) (UnknownKey k) = 0"
proof -
  from migrate_dis_warnings [OF d]
  have 1: "count_list (warnings s1) (UnknownKey k) = 0" by (auto simp: init_state_def)
  from migrate_spefs_cases [OF sp] 1
  have 2: "count_list (warnings s2) (UnknownKey k) = 0" by auto
  from compile_variables_warnings [OF c] obtain ws where
    "warnings s3 = warnings s2 @ map VarWarning ws" by blast
  with 2 show ?thesis by (simp add: count_list_map_VarWarning)
qed

lemma run_distinct_mutable:
  assumes d: "migrate_dis E s0 = Inr s1"
      and sp: "migrate_spefs E s1 = Inr (s2, t)"
      and c: "compile_variables vs s2 = Inr s3"
      and dist: "distinct (dkeys (mutable s0))"
  shows "distinct (dkeys (mutable s3))"
  using compile_variables_distinct [OF c migrate_spefs_distinct [OF sp migrate_dis_distinct [OF d dist]]] .

lemma run_final_keys:
  assumes d: "migrate_dis E (init_state m h) = Inr s1"
      and sp: "migrate_spefs E s1 = Inr (s2, t)"
      and c: "compile_variables vs s2 = Inr s3"
  shows "set (dkeys (final s3)) \<subseteq>
           {GRT_REPAIR_ANTENNAS, RUN_HEURISTIC_DIODE_INSERTION, DIODE_ON_PORTS} \<union>
           (\<lambda>v. KStr (name v)) ` set vs"
proof -
  from migrate_dis_final_keys [OF d]
  have "set (dkeys (final s1)) \<subseteq> {GRT_REPAIR_ANTENNAS, RUN_HEURISTIC_DIODE_INSERTION, DIODE_ON_PORTS}"
    by (simp add: init_state_def dkeys_def)
  with migrate_spefs_final [OF sp] compile_variables_final_keys [OF c] show ?thesis by auto
qed

text \<open>
  C5 (as stated, refuted). The key \<^verbatim>\<open>X_OPTY\<close> is no special key, is not in the removed
  table, does not end in the marker \<^verbatim>\<open>_OPT\<close> and is not the comment key, and no
  variable consumes it: the claim promises one "unknown key" warning. The source tests
  \<^verbatim>\<open>"_OPT" not in key\<close>, a test for the marker anywhere in the key, so there is no
  warning at all.
\<close>

theorem unknown_key_counterexample:
  "\<not> (\<exists>p. ''X_OPTY'' = p @ ''_OPT'') \<and>
   ''X_OPTY'' \<notin> set (special_keys env0) \<and>
   run_stages env0 [] Map.empty (init_state (copy_items [(KStr ''X_OPTY'', VInt 1)]) []) =
     Inr \<lparr>mutable = [(KStr ''X_OPTY'', VInt 1)], final = [], warnings = [], errors = [],
            heap = []\<rparr> \<and>
   count_list [] (UnknownKey ''X_OPTY'') \<noteq> 1"
proof -
  have "''X_OPTY'' \<noteq> p @ ''_OPT''" for p
  proof
    assume "''X_OPTY'' = p @ ''_OPT''"
    then have "last ''X_OPTY'' = last (p @ ''_OPT'')" by (rule arg_cong)
    then show False by simp
  qed
  then have suffix: "\<not> (\<exists>p. ''X_OPTY'' = p @ ''_OPT'')" by blast
  have run: "run_stages env0 [] Map.empty (init_state (copy_items [(KStr ''X_OPTY'', VInt 1)]) []) =
     Inr \<lparr>mutable = [(KStr ''X_OPTY'', VInt 1)], final = [], warnings = [], errors = [],
            heap = []\<rparr>"
    by (simp add: run_stages_def migrate_def validate_def migrate_dis_def migrate_spefs_def
          init_state_def py_get_def dget_def leftover_def sorted_keys_def dkeys_def
          leftover_warning_def env0_def copy_items_def)
  from suffix run show ?thesis by (simp add: env0_def)
qed

text \<open>
  C5 (amended). After all variables are compiled, a key left in the working set that is
  no special key and not in the removed table gets exactly one "unknown key" warning,
  unless it contains the marker \<^verbatim>\<open>_OPT\<close> anywhere or is the comment key \<^verbatim>\<open>//\<close>: those
  get none. Such a key is not in the final configuration unless it is the name of a
  variable of the list or one of the three keys that the strategy migration writes.
\<close>

theorem unknown_key_warning:
  assumes run: "run_stages E vs removed (init_state (copy_items d) h) = Inr s'"
      and left: "KStr k \<in> set (dkeys (mutable s'))"
      and special: "k \<notin> set (special_keys E)"
      and not_removed: "removed k = None"
  shows "count_list (warnings s') (UnknownKey k) =
           (if contains ''_OPT'' k \<or> k = ''//'' then 0 else 1) \<and>
         (k \<notin> name ` set vs \<and>
          KStr k \<notin> {GRT_REPAIR_ANTENNAS, RUN_HEURISTIC_DIODE_INSERTION, DIODE_ON_PORTS}
            \<longrightarrow> KStr k \<notin> set (dkeys (final s')))"
proof -
  from run_stages_cases [OF run] obtain s1 s2 t where
    d: "migrate_dis E (init_state (copy_items d) h) = Inr s1" and
    sp: "migrate_spefs E s1 = Inr (s2, t)" and
    v: "validate E vs removed s2 t = Inr s'" by blast
  from validate_cases [OF v] obtain s3 ks where
    c: "compile_variables vs s2 = Inr s3" and
    ks: "sorted_keys (dkeys (mutable s3)) = Inr ks" and
    w: "warnings s' = warnings s3 @ leftover_warnings (special_keys E) removed ks" and
    m: "mutable s' = mutable s3" and f: "final s' = final s3" by blast
  have "distinct (dkeys (mutable (init_state (copy_items d) h)))"
    by (simp add: init_state_def distinct_copy_items)
  from run_distinct_mutable [OF d sp c this] have "distinct (dkeys (mutable s3))" .
  from sorted_keys_distinct [OF ks this] have dist: "distinct ks" .
  from left m sorted_keys_set [OF ks] have mem: "k \<in> set ks" by simp
  have "count_list (warnings s') (UnknownKey k) =
          count_list (leftover_warnings (special_keys E) removed ks) (UnknownKey k)"
    using w no_unknown_before_leftover [OF d sp c] by simp
  also have "\<dots> = (if contains ''_OPT'' k \<or> k = ''//'' then 0 else 1)"
    using special not_removed mem dist
    by (simp add: leftover_warnings_unknown count_list_distinct)
  finally have first: "count_list (warnings s') (UnknownKey k) =
           (if contains ''_OPT'' k \<or> k = ''//'' then 0 else 1)" .
  have second: "k \<notin> name ` set vs \<and>
          KStr k \<notin> {GRT_REPAIR_ANTENNAS, RUN_HEURISTIC_DIODE_INSERTION, DIODE_ON_PORTS}
            \<longrightarrow> KStr k \<notin> set (dkeys (final s'))"
    using run_final_keys [OF d sp c] f by auto
  from first second show ?thesis by blast
qed

theorem unknown_key_warning_witness:
  "run_stages env0 [plain_var ''A''] Map.empty
     (init_state (copy_items [(KStr ''B'', VInt 1), (KStr ''A'', VInt 2), (KStr ''C_OPT'', VInt 3)]) [])
     = Inr \<lparr>mutable = [(KStr ''B'', VInt 1), (KStr ''C_OPT'', VInt 3)],
            final = [(KStr ''A'', VInt 2)],
            warnings = [UnknownKey ''B''], errors = [], heap = []\<rparr> \<and>
   count_list [UnknownKey ''B''] (UnknownKey ''B'') = 1 \<and>
   KStr ''B'' \<notin> set (dkeys [(KStr ''A'', VInt 2)])"
proof -
  have run: "run_stages env0 [plain_var ''A''] Map.empty
     (init_state (copy_items [(KStr ''B'', VInt 1), (KStr ''A'', VInt 2), (KStr ''C_OPT'', VInt 3)]) [])
     = Inr \<lparr>mutable = [(KStr ''B'', VInt 1), (KStr ''C_OPT'', VInt 3)],
            final = [(KStr ''A'', VInt 2)],
            warnings = [UnknownKey ''B''], errors = [], heap = []\<rparr>"
    by (simp add: run_stages_def migrate_def validate_def migrate_dis_def migrate_spefs_def
          init_state_def py_get_def dget_def leftover_def sorted_keys_def dkeys_def
          leftover_warning_def env0_def copy_items_def compile_variable_def plain_var_def
          ddel_def)
  have left: "KStr ''B'' \<in> set (dkeys (mutable \<lparr>mutable = [(KStr ''B'', VInt 1), (KStr ''C_OPT'', VInt 3)],
            final = [(KStr ''A'', VInt 2)],
            warnings = [UnknownKey ''B''], errors = [], heap = []\<rparr>))"
    by (simp add: dkeys_def)
  have sp: "''B'' \<notin> set (special_keys env0)" by (simp add: env0_def)
  have nr: "Map.empty ''B'' = None" by simp
  from unknown_key_warning [OF run left sp nr] run show ?thesis
    by (simp add: plain_var_def)
qed


section \<open>The legacy keys leave the working set\<close>


lemma py_get_None_of_dget_None: "dget k d = None \<Longrightarrow> py_get k d = VNone"
  by (simp add: py_get_def)












section \<open>Translation of the flat list into macro records\<close>






lemma fold_dset_other:
  "k \<notin> mk ` set is \<Longrightarrow> dget k (fold (\<lambda>i. dset (mk i) (v i)) is d) = dget k d"
  by (induction "is" arbitrary: d) (auto simp: dget_dset_other)

lemma fold_dset_last:
  assumes "mk i \<notin> mk ` set qs"
  shows "dget (mk i) (fold (\<lambda>i. dset (mk i) (v i)) (ps @ i # qs) d) = Some (v i)"
  using assms by (simp add: fold_dset_other dget_dset_same)










subsection \<open>The placeholder after compilation\<close>


lemma map_of_aset_other: "k' \<noteq> k \<Longrightarrow> map_of (aset k v d) k' = map_of d k'"
  by (induction d) auto









subsection \<open>The migration as a whole\<close>









section \<open>What the pass does to the objects that exist before the call\<close>







lemma migrate_spefs_absent:
  "py_get EXTRA_SPEFS (mutable s) = VNone \<Longrightarrow> migrate_spefs E s = Inr (s, False)"
  by (simp add: migrate_spefs_def)












section \<open>Running a final configuration through the validator again\<close>

lemma strategy_first_pass:
  "process_variable_list env0 strategy_heap 0 [plain_var ''DESIGN_NAME''] None =
     Inr (strategy_final, [DisDeprecated], [], strategy_heap)"
  by code_simp

lemma strategy_second_pass:
  "process_variable_list env0 (strategy_heap @ [ODict strategy_final]) (length strategy_heap)
     [plain_var ''DESIGN_NAME''] None =
     Inr ([(KStr ''DESIGN_NAME'', VStr ''spm'')],
          [UnknownKey ''DIODE_ON_PORTS'', UnknownKey ''GRT_REPAIR_ANTENNAS'',
           UnknownKey ''RUN_HEURISTIC_DIODE_INSERTION''], [],
          strategy_heap @ [ODict strategy_final])"
  by code_simp

text \<open>
  C8 (as stated, refuted). The first pass migrates the strategy 3 and returns a final
  configuration without an error. The variable list has no variable for the three keys
  that the migration wrote, so the second pass over this final configuration, with the
  same variable list and removed table, warns about three unknown keys and returns a
  configuration without them.
\<close>

theorem reprocess_counterexample:
  "process_variable_list env0 strategy_heap 0 [plain_var ''DESIGN_NAME''] None =
     Inr (strategy_final, [DisDeprecated], [], strategy_heap) \<and>
   (\<exists>cfg ws h'.
      process_variable_list env0 (strategy_heap @ [ODict strategy_final]) (length strategy_heap)
        [plain_var ''DESIGN_NAME''] None = Inr (cfg, ws, [], h') \<and>
      ws \<noteq> [] \<and> dget GRT_REPAIR_ANTENNAS strategy_final = Some (VBool True) \<and>
      dget GRT_REPAIR_ANTENNAS cfg = None)"
  unfolding strategy_first_pass strategy_second_pass
  by (simp add: dget_def strategy_final_def)

lemma dkeys_fold_ddel:
  "set (dkeys (fold (\<lambda>v. ddel (KStr (name v))) vs m)) =
     set (dkeys m) - (\<lambda>v. KStr (name v)) ` set vs"
  by (induction vs arbitrary: m) (auto simp: dkeys_ddel)

lemma dget_fold_ddel_other:
  "k \<notin> (\<lambda>v. KStr (name v)) ` set vs \<Longrightarrow>
   dget k (fold (\<lambda>v. ddel (KStr (name v))) vs m) = dget k m"
  by (induction vs arbitrary: m) (auto simp: dget_ddel_other)

lemma compile_variables_identity:
  assumes "\<forall>v\<in>set vs. \<exists>x. dget (KStr (name v)) d = Some x \<and> dget (KStr (name v)) (mutable s) = Some x"
      and "\<forall>v\<in>set vs. \<forall>m f hp x. dget (KStr (name v)) d = Some x \<longrightarrow>
              dget (KStr (name v)) m = Some x \<longrightarrow>
              (\<exists>objs. compile v m f hp = ([], objs, Inr (Some (name v), x)))"
      and "distinct (map name vs)"
  shows "\<exists>s'. compile_variables vs s = Inr s' \<and> warnings s' = warnings s \<and>
           errors s' = errors s \<and>
           mutable s' = fold (\<lambda>v. ddel (KStr (name v))) vs (mutable s) \<and>
           final s' = fold (\<lambda>v. dset (KStr (name v)) (py_get (KStr (name v)) d)) vs (final s) \<and>
           (\<exists>objs. heap s' = heap s @ objs)"
  using assms
proof (induction vs arbitrary: s)
  case Nil
  then show ?case by simp
next
  case (Cons v vs)
  from Cons.prems(1) obtain x where
    x: "dget (KStr (name v)) d = Some x" "dget (KStr (name v)) (mutable s) = Some x" by auto
  from Cons.prems(2) x obtain objs where
    cv: "compile v (mutable s) (final s) (heap s) = ([], objs, Inr (Some (name v), x))"
    by (metis list.set_intros(1))
  from x(2) have mem: "KStr (name v) \<in> set (dkeys (mutable s))"
    using dget_None_iff [of "KStr (name v)" "mutable s"] by simp
  let ?s1 = "s\<lparr>warnings := warnings s, heap := heap s @ objs,
               mutable := ddel (KStr (name v)) (mutable s),
               final := dset (KStr (name v)) x (final s)\<rparr>"
  have step: "compile_variable v s = Inr ?s1"
    using cv mem by (simp add: compile_variable_def)
  have px: "py_get (KStr (name v)) d = x" using x(1) by (simp add: py_get_def)
  have p1: "\<forall>w\<in>set vs. \<exists>y. dget (KStr (name w)) d = Some y \<and>
              dget (KStr (name w)) (mutable ?s1) = Some y"
  proof
    fix w assume w: "w \<in> set vs"
    from Cons.prems(3) have "name v \<notin> name ` set vs" by simp
    with w have "name w \<noteq> name v" by (metis imageI)
    then have "dget (KStr (name w)) (mutable ?s1) = dget (KStr (name w)) (mutable s)"
      by (simp add: dget_ddel_other)
    with Cons.prems(1) w show "\<exists>y. dget (KStr (name w)) d = Some y \<and>
              dget (KStr (name w)) (mutable ?s1) = Some y" by simp
  qed
  have p2: "\<forall>v\<in>set vs. \<forall>m f hp x. dget (KStr (name v)) d = Some x \<longrightarrow>
              dget (KStr (name v)) m = Some x \<longrightarrow>
              (\<exists>objs. compile v m f hp = ([], objs, Inr (Some (name v), x)))"
    using Cons.prems(2) by simp
  have p3: "distinct (map name vs)" using Cons.prems(3) by simp
  from Cons.IH [OF p1 p2 p3] obtain s' objs' where
    r: "compile_variables vs ?s1 = Inr s'" and
    w: "warnings s' = warnings ?s1" and e: "errors s' = errors ?s1" and
    m: "mutable s' = fold (\<lambda>v. ddel (KStr (name v))) vs (mutable ?s1)" and
    f: "final s' = fold (\<lambda>v. dset (KStr (name v)) (py_get (KStr (name v)) d)) vs (final ?s1)" and
    h: "heap s' = heap ?s1 @ objs'" by blast
  have "heap s' = heap s @ (objs @ objs')" using h by simp
  with step r w e m f px show ?case by auto
qed


lemma fold_dset_fresh:
  "distinct (map mk vs) \<Longrightarrow> \<forall>v\<in>set vs. mk v \<notin> set (dkeys acc) \<Longrightarrow>
   fold (\<lambda>v. dset (mk v) (val v)) vs acc = acc @ map (\<lambda>v. (mk v, val v)) vs"
proof (induction vs arbitrary: acc)
  case Nil
  then show ?case by simp
next
  case (Cons v vs)
  from Cons.prems(2) have new: "mk v \<notin> set (dkeys acc)" by simp
  have step: "dset (mk v) (val v) acc = acc @ [(mk v, val v)]"
    by (rule dset_append_new [OF new])
  have d: "distinct (map mk vs)" using Cons.prems(1) by simp
  have fresh: "\<forall>w\<in>set vs. mk w \<notin> set (dkeys (acc @ [(mk v, val v)]))"
  proof
    fix w assume w: "w \<in> set vs"
    from Cons.prems(1) have "mk v \<notin> mk ` set vs" by simp
    with w have "mk w \<noteq> mk v" by (metis imageI)
    moreover from Cons.prems(2) w have "mk w \<notin> set (dkeys acc)" by simp
    ultimately show "mk w \<notin> set (dkeys (acc @ [(mk v, val v)]))" by (simp add: dkeys_def)
  qed
  from Cons.IH [OF d fresh] step show ?case by simp
qed

lemma dkeys_empty: "set (dkeys m) = {} \<Longrightarrow> m = []"
  by (simp add: dkeys_def)

text \<open>
  C8 (amended). Let a configuration hold neither legacy key (with a value other than
  \<^verbatim>\<open>None\<close>), let its keys be exactly the names of the variables of the list, which are
  distinct, and let the compile operation of each variable, on a working set that holds
  the configuration's value under the variable's name, return that key and that value
  without a warning. Then running it through the validator again gives an equal
  configuration (the same keys with the same values, in the order of the variable
  list), empty warning and error lists, and changes no object that existed before.
\<close>

theorem reprocess_final:
  assumes obj: "self < length h" "h ! self = ODict d"
      and dist: "distinct (dkeys d)"
      and keys: "set (dkeys d) = (\<lambda>v. KStr (name v)) ` set vs"
      and names: "distinct (map name vs)"
      and legacy: "py_get DIODE_INSERTION_STRATEGY d = VNone" "py_get EXTRA_SPEFS d = VNone"
      and comp: "\<forall>v\<in>set vs. \<forall>m f hp x. dget (KStr (name v)) d = Some x \<longrightarrow>
              dget (KStr (name v)) m = Some x \<longrightarrow>
              (\<exists>objs. compile v m f hp = ([], objs, Inr (Some (name v), x)))"
  shows "\<exists>cfg h'. process_variable_list E h self vs removed = Inr (cfg, [], [], h') \<and>
           map_of cfg = map_of d \<and> dkeys cfg = map (\<lambda>v. KStr (name v)) vs \<and>
           take (length h) h' = h"
proof -
  let ?mk = "\<lambda>v. KStr (name v)"
  let ?val = "\<lambda>v. py_get (KStr (name v)) d"
  let ?s0 = "init_state d h"
  let ?F = "map (\<lambda>v. (?mk v, ?val v)) vs"
  have cp: "config_copy h self = Inr d"
    using obj dist by (simp add: config_copy_def copy_items_distinct_id)
  have m0: "mutable ?s0 = d" by (simp add: init_state_def)
  have mg: "migrate E ?s0 = Inr (?s0, False)"
    using legacy m0 by (simp add: migrate_def migrate_dis_absent migrate_spefs_absent)
  have p1: "\<forall>v\<in>set vs. \<exists>x. dget (KStr (name v)) d = Some x \<and>
              dget (KStr (name v)) (mutable ?s0) = Some x"
  proof
    fix v assume "v \<in> set vs"
    with keys have "KStr (name v) \<in> set (dkeys d)" by auto
    then have "dget (KStr (name v)) d \<noteq> None" by (simp add: dget_None_iff)
    with m0 show "\<exists>x. dget (KStr (name v)) d = Some x \<and>
              dget (KStr (name v)) (mutable ?s0) = Some x" by auto
  qed
  from compile_variables_identity [OF p1 comp names] obtain s3 objs where
    c: "compile_variables vs ?s0 = Inr s3" and
    w3: "warnings s3 = []" and e3: "errors s3 = []" and
    m3: "mutable s3 = fold (\<lambda>v. ddel (KStr (name v))) vs d" and
    f3: "final s3 = fold (\<lambda>v. dset (?mk v) (?val v)) vs []" and
    h3: "heap s3 = h @ objs"
    by (auto simp: init_state_def)
  have "set (dkeys (mutable s3)) = {}"
    using m3 keys dkeys_fold_ddel [of vs d] by simp
  then have me: "mutable s3 = []" by (rule dkeys_empty)
  have inj: "distinct (map ?mk vs)"
    using names by (simp add: distinct_map inj_on_def)
  have F: "final s3 = ?F"
    using f3 fold_dset_fresh [OF inj, of "[]" ?val] by (simp add: dkeys_def)
  have kF: "dkeys ?F = map ?mk vs" by (simp add: dkeys_def comp_def)
  have dF: "distinct (dkeys ?F)" using inj kF by simp
  have v: "validate E vs (removed_or_empty removed) ?s0 False = Inr s3"
    using c me w3 by (simp add: validate_def leftover_def sorted_keys_def dkeys_def)
  have run: "process_variable_list E h self vs removed = Inr (?F, [], [], h @ objs)"
    using cp mg v F w3 e3 h3 dF
    by (simp add: process_variable_list_def run_stages_def copy_items_distinct_id)
  have eq: "map_of ?F k = map_of d k" for k
  proof (cases "k \<in> ?mk ` set vs")
    case True
    then obtain v where v: "v \<in> set vs" "k = ?mk v" by blast
    then obtain ps qs where split: "vs = ps @ v # qs" by (meson split_list)
    with inj have "?mk v \<notin> ?mk ` set qs" by auto
    from fold_dset_last [OF this, of ?val ps "[]"] split f3 F
    have "dget k ?F = Some (?val v)" using v(2) by simp
    moreover from p1 v have "dget k d = Some (?val v)" by (auto simp: py_get_def)
    ultimately show ?thesis by (simp add: dget_def)
  next
    case False
    from fold_dset_other [OF False, of ?val "[]"] f3 F have "dget k ?F = None"
      by (simp add: dget_def)
    moreover from False keys have "dget k d = None" by (simp add: dget_None_iff)
    ultimately show ?thesis by (simp add: dget_def)
  qed
  then have "map_of ?F = map_of d" by (rule ext)
  with run kF show ?thesis by (intro exI [of _ ?F] exI [of _ "h @ objs"]) simp
qed

theorem reprocess_final_witness:
  "\<exists>h'. process_variable_list env0 [ODict [(KStr ''A'', VInt 1), (KStr ''B'', VStr ''x'')]] 0
          [plain_var ''A'', plain_var ''B''] None
        = Inr ([(KStr ''A'', VInt 1), (KStr ''B'', VStr ''x'')], [], [], h') \<and>
        take 1 h' = [ODict [(KStr ''A'', VInt 1), (KStr ''B'', VStr ''x'')]]"
proof -
  let ?d = "[(KStr ''A'', VInt 1), (KStr ''B'', VStr ''x'')]"
  let ?vs = "[plain_var ''A'', plain_var ''B'']"
  have 1: "0 < length [ODict ?d]" by simp
  have 2: "[ODict ?d] ! 0 = ODict ?d" by simp
  have 3: "distinct (dkeys ?d)" by (simp add: dkeys_def)
  have 4: "set (dkeys ?d) = (\<lambda>v. KStr (name v)) ` set ?vs"
    by (auto simp: dkeys_def plain_var_def)
  have 5: "distinct (map name ?vs)" by (simp add: plain_var_def)
  have 6: "py_get DIODE_INSERTION_STRATEGY ?d = VNone" by (simp add: py_get_def dget_def)
  have 7: "py_get EXTRA_SPEFS ?d = VNone" by (simp add: py_get_def dget_def)
  have 8: "\<forall>v\<in>set ?vs. \<forall>m f hp x. dget (KStr (name v)) ?d = Some x \<longrightarrow>
              dget (KStr (name v)) m = Some x \<longrightarrow>
              (\<exists>objs. compile v m f hp = ([], objs, Inr (Some (name v), x)))"
    by (simp add: plain_var_def)
  from reprocess_final [OF 1 2 3 4 5 6 7 8, of env0 None] obtain cfg h' where
    r: "process_variable_list env0 [ODict ?d] 0 ?vs None = Inr (cfg, [], [], h')" and
    m: "map_of cfg = map_of ?d" and k: "dkeys cfg = map (\<lambda>v. KStr (name v)) ?vs" and
    t: "take (length [ODict ?d]) h' = [ODict ?d]" by blast
  have "process_variable_list env0 [ODict ?d] 0 ?vs None = Inr (?d, [], [], [ODict ?d])"
    by code_simp
  with r t show ?thesis by simp
qed


section \<open>The aggregated error\<close>











section \<open>Overrides and the technology layer\<close>




lemma apply_overrides_other:
  "apply_overrides ovs d = Inr d' \<Longrightarrow>
   \<forall>ov\<in>set ovs. \<forall>k v. split_eq ov = Some (k, v) \<longrightarrow> k \<noteq> key \<Longrightarrow>
   dget (KStr key) d' = dget (KStr key) d"
proof (induction ovs arbitrary: d)
  case Nil
  then show ?case by simp
next
  case (Cons s ovs)
  from Cons.prems(1) obtain k v where s: "split_eq s = Some (k, v)"
    and r: "apply_overrides ovs (dset (KStr k) (VStr v) d) = Inr d'"
    by (auto split: option.splits)
  from Cons.prems(2) s have ne: "k \<noteq> key" by auto
  from Cons.prems(2) have rest: "\<forall>ov\<in>set ovs. \<forall>k v. split_eq ov = Some (k, v) \<longrightarrow> k \<noteq> key"
    by simp
  from Cons.IH [OF r rest] ne show ?case by (simp add: dget_dset_other)
qed


lemma dget_extract_process_info:
  "dget (KStr (key_pdk S)) (extract_process_info S d) = dget (KStr (key_pdk S)) d"
  unfolding dget_def extract_process_info_def
  by (induction d) auto




lemma resolve_pdk_root_given:
  "resolve_pdk_root S (Some r) =
     io_return (case volare_home S of Some home \<Rightarrow> abspath S (home (Some r))
                                     | None \<Rightarrow> abspath S r)"
  by (simp add: resolve_pdk_root_def split: option.splits)

lemma loads_tcl_steps:
  assumes root: "resolve_pdk_root S (Some pdk_root0) = io_return pdk_root"
      and ev: "env_from_tcl S (tcl_vars S pdk_root (pdk_arg pdk) (VStr []) dd) text
                 = Some tcl_config"
  shows "loads_tcl S text dd vars ovs pdk_root0 pdk scl fpw w =
           (let w1 = w\<lparr>trace := trace w @ [LogWarn TclDeprecated, TclEval]\<rparr>;
                pdk' = choose_pdk S (store w) (extract_process_info S tcl_config) pdk
            in if pdk' = VNone then (Inl PdkRequired, w1)
               else io_bind (get_pdk_config S pdk' scl pdk_root fpw)
                      (tcl_design_layer S text dd vars ovs pdk_root pdk') w1)"
  using assms
  by (simp add: loads_tcl_def io_bind_def io_event_def io_return_def io_raise_def eval_tcl_def
        Let_def)







section \<open>A missing technology name\<close>

lemma choose_pdk_none:
  "dget (KStr (key_pdk S)) d = None \<Longrightarrow> choose_pdk S h (extract_process_info S d) None = VNone"
  by (simp add: choose_pdk_def py_get_def dget_extract_process_info)

lemma dget_take_meta:
  "dget k d0 = None \<Longrightarrow> dget k (snd (take_meta d0)) = None"
  by (cases "k = KStr ''meta''") (auto simp: take_meta_def dget_ddel_same dget_ddel_other)

lemma prepare_raw_no_pdk:
  assumes nokey: "\<forall>d0. raw < length (store w) \<and> store w ! raw = ODict d0 \<longrightarrow>
                    dget (KStr (key_pdk S)) d0 = None"
      and noov: "\<forall>ov\<in>set ovs. \<forall>k v. split_eq ov = Some (k, v) \<longrightarrow> k \<noteq> key_pdk S"
  shows "(\<exists>e. prepare_raw raw ovs w = (Inl e, w)) \<or>
         (\<exists>m d2 w1. prepare_raw raw ovs w = (Inr (m, d2), w1) \<and> trace w1 = trace w \<and>
              dget (KStr (key_pdk S)) d2 = None)"
proof (cases "raw < length (store w) \<and> (\<exists>d0. store w ! raw = ODict d0)")
  case False
  then show ?thesis by (auto simp: prepare_raw_def split: obj.splits)
next
  case True
  then obtain d0 where r: "raw < length (store w)" "store w ! raw = ODict d0" by blast
  with nokey have n0: "dget (KStr (key_pdk S)) d0 = None" by blast
  obtain m d1 where tm: "take_meta d0 = (m, d1)" by (cases "take_meta d0")
  with dget_take_meta [OF n0] have n1: "dget (KStr (key_pdk S)) d1 = None" by simp
  show ?thesis
  proof (cases "apply_overrides ovs d1")
    case (Inl e)
    with r tm show ?thesis by (simp add: prepare_raw_def)
  next
    case (Inr d2)
    from apply_overrides_other [OF Inr noov] n1 have "dget (KStr (key_pdk S)) d2 = None" by simp
    with r tm Inr show ?thesis by (simp add: prepare_raw_def)
  qed
qed

lemma load_dict_no_pdk:
  assumes nokey: "\<forall>d0. raw < length (store w) \<and> store w ! raw = ODict d0 \<longrightarrow>
                    dget (KStr (key_pdk S)) d0 = None"
      and noov: "\<forall>ov\<in>set ovs. \<forall>k v. split_eq ov = Some (k, v) \<longrightarrow> k \<noteq> key_pdk S"
  shows "\<exists>e w'. load_dict S raw dd vars ovs pdk_root None scl fpw w = (Inl e, w') \<and>
           trace w' = trace w"
proof -
  from prepare_raw_no_pdk [OF nokey noov] consider
      (fail) e where "prepare_raw raw ovs w = (Inl e, w)"
    | (ok) m d2 w1 where "prepare_raw raw ovs w = (Inr (m, d2), w1)" "trace w1 = trace w"
        "dget (KStr (key_pdk S)) d2 = None"
    by blast
  then show ?thesis
  proof cases
    case fail
    then show ?thesis by (simp add: load_dict_def io_bind_def)
  next
    case ok
    then show ?thesis
      by (simp add: load_dict_def io_bind_def choose_pdk_none io_raise_def)
  qed
qed

lemma resolve_pdk_root_trace:
  "(\<exists>e. resolve_pdk_root S r w = (Inl e, w)) \<or> (\<exists>x. resolve_pdk_root S r w = (Inr x, w))"
  by (simp add: resolve_pdk_root_def io_return_def io_raise_def split: option.splits)

lemma load_from_dict_no_pdk:
  assumes nokey: "\<forall>d0. raw < length (store w) \<and> store w ! raw = ODict d0 \<longrightarrow>
                    dget (KStr (key_pdk S)) d0 = None"
      and noov: "\<forall>ov\<in>set (or_empty ovs). \<forall>k v. split_eq ov = Some (k, v) \<longrightarrow> k \<noteq> key_pdk S"
  shows "\<exists>e w'. load S (FromDict raw) vars ovs None pdk_root scl dd w = (Inl e, w') \<and>
           trace w' = trace w"
proof (cases dd)
  case None
  then show ?thesis by (simp add: load_def io_raise_def)
next
  case (Some d)
  from resolve_pdk_root_trace [of S pdk_root w] show ?thesis
  proof
    assume "\<exists>e. resolve_pdk_root S pdk_root w = (Inl e, w)"
    with Some show ?thesis by (auto simp: load_def io_bind_def)
  next
    assume "\<exists>x. resolve_pdk_root S pdk_root w = (Inr x, w)"
    then obtain x where x: "resolve_pdk_root S pdk_root w = (Inr x, w)" by blast
    from load_dict_no_pdk [OF nokey noov, of d vars x scl False] obtain e w' where
      "load_dict S raw d vars (or_empty ovs) x None scl False w = (Inl e, w')"
      "trace w' = trace w" by blast
    with Some x show ?thesis by (simp add: load_def io_bind_def)
  qed
qed


lemma read_file_result:
  "read_file S p w =
     (case fs_read S p of None \<Rightarrow> Inl (External ''OSError'') | Some t \<Rightarrow> Inr t,
      w\<lparr>trace := trace w @ [FileRead p]\<rparr>)"
  by (simp add: read_file_def io_bind_def io_event_def io_raise_def io_return_def
           split: option.splits)

lemma loads_no_pdk:
  assumes nokey: "\<forall>r objs d0. json_loads S json_str (store w) = Some (VRef r, objs) \<and>
                    r < length (store w @ objs) \<and> (store w @ objs) ! r = ODict d0 \<longrightarrow>
                    dget (KStr (key_pdk S)) d0 = None"
      and noov: "\<forall>ov\<in>set ovs. \<forall>k v. split_eq ov = Some (k, v) \<longrightarrow> k \<noteq> key_pdk S"
  shows "\<exists>e w'. loads S json_str dd vars ovs pdk_root None scl w = (Inl e, w') \<and>
           trace w' = trace w"
proof (cases "json_loads S json_str (store w)")
  case None
  then show ?thesis by (simp add: loads_def)
next
  case (Some res)
  obtain v objs where res: "res = (v, objs)" by (cases res)
  show ?thesis
  proof (cases "\<exists>r. v = VRef r")
    case False
    with Some res show ?thesis by (cases v) (simp_all add: loads_def)
  next
    case True
    then obtain r where v: "v = VRef r" by blast
    let ?w1 = "w\<lparr>store := store w @ objs\<rparr>"
    have nk: "\<forall>d0. r < length (store ?w1) \<and> store ?w1 ! r = ODict d0 \<longrightarrow>
                dget (KStr (key_pdk S)) d0 = None"
      using nokey Some res v by simp
    from load_dict_no_pdk [OF nk noov, of dd vars pdk_root scl False] Some res v
    show ?thesis by (simp add: loads_def)
  qed
qed

lemma loads_tcl_no_pdk:
  assumes nokey: "\<forall>r cfg. env_from_tcl S (tcl_vars S r VNone (VStr []) dd) script = Some cfg \<longrightarrow>
                    dget (KStr (key_pdk S)) cfg = None"
  shows "\<exists>e w' t. loads_tcl S script dd vars ovs pdk_root0 None scl fpw w = (Inl e, w') \<and>
           trace w' = trace w @ t \<and> filter file_access t = []"
proof -
  let ?r = "case volare_home S of Some home \<Rightarrow> abspath S (home (Some pdk_root0))
                                  | None \<Rightarrow> abspath S pdk_root0"
  have root: "resolve_pdk_root S (Some pdk_root0) = io_return ?r"
    by (rule resolve_pdk_root_given)
  show ?thesis
  proof (cases "env_from_tcl S (tcl_vars S ?r VNone (VStr []) dd) script")
    case None
    then have "loads_tcl S script dd vars ovs pdk_root0 None scl fpw w =
                 (Inl (External ''env_from_tcl''),
                  w\<lparr>trace := trace w @ [LogWarn TclDeprecated, TclEval]\<rparr>)"
      using root
      by (simp add: loads_tcl_def io_bind_def io_event_def io_return_def io_raise_def
            eval_tcl_def pdk_arg_def)
    then show ?thesis by simp
  next
    case (Some cfg)
    with nokey have n: "dget (KStr (key_pdk S)) cfg = None" by blast
    have ev: "env_from_tcl S (tcl_vars S ?r (pdk_arg None) (VStr []) dd) script = Some cfg"
      using Some by (simp add: pdk_arg_def)
    from loads_tcl_steps [OF root ev, of vars ovs scl fpw w] choose_pdk_none [OF n]
    have "loads_tcl S script dd vars ovs pdk_root0 None scl fpw w =
            (Inl PdkRequired, w\<lparr>trace := trace w @ [LogWarn TclDeprecated, TclEval]\<rparr>)"
      by (simp add: Let_def)
    then show ?thesis by simp
  qed
qed

lemma load_from_json_no_pdk:
  assumes json: "ends_with (abspath S p) ''.json''"
      and nokey: "\<forall>json_str r objs d0. fs_read S (abspath S p) = Some json_str \<and>
                    json_loads S json_str (store w) = Some (VRef r, objs) \<and>
                    r < length (store w @ objs) \<and> (store w @ objs) ! r = ODict d0 \<longrightarrow>
                    dget (KStr (key_pdk S)) d0 = None"
      and noov: "\<forall>ov\<in>set (or_empty ovs). \<forall>k v. split_eq ov = Some (k, v) \<longrightarrow> k \<noteq> key_pdk S"
  shows "\<exists>e w' t. load S (FromPath p) vars ovs None pdk_root scl dd w = (Inl e, w') \<and>
           trace w' = trace w @ t \<and> set (filter file_access t) \<subseteq> {FileRead (abspath S p)}"
proof (cases dd)
  case (Some d)
  then have "load S (FromPath p) vars ovs None pdk_root scl dd w = (Inl DesignDirNotSupported, w)"
    by (simp add: load_def io_raise_def)
  then show ?thesis by auto
next
  case None
  let ?p = "abspath S p"
  let ?w1 = "w\<lparr>trace := trace w @ [FileRead ?p]\<rparr>"
  show ?thesis
  proof (cases "fs_read S ?p")
    case n: None
    with None json have "load S (FromPath p) vars ovs None pdk_root scl dd w =
                           (Inl (External ''OSError''), ?w1)"
      by (simp add: load_def Let_def io_bind_def read_file_result)
    then show ?thesis by auto
  next
    case (Some json_str)
    from resolve_pdk_root_trace [of S pdk_root ?w1] show ?thesis
    proof
      assume "\<exists>e. resolve_pdk_root S pdk_root ?w1 = (Inl e, ?w1)"
      then obtain e where "resolve_pdk_root S pdk_root ?w1 = (Inl e, ?w1)" by blast
      with None json Some have "load S (FromPath p) vars ovs None pdk_root scl dd w = (Inl e, ?w1)"
        by (simp add: load_def Let_def io_bind_def read_file_result)
      then show ?thesis by auto
    next
      assume "\<exists>x. resolve_pdk_root S pdk_root ?w1 = (Inr x, ?w1)"
      then obtain x where x: "resolve_pdk_root S pdk_root ?w1 = (Inr x, ?w1)" by blast
      have nk: "\<forall>r objs d0. json_loads S json_str (store ?w1) = Some (VRef r, objs) \<and>
                    r < length (store ?w1 @ objs) \<and> (store ?w1 @ objs) ! r = ODict d0 \<longrightarrow>
                    dget (KStr (key_pdk S)) d0 = None"
        using nokey Some by simp
      from loads_no_pdk [OF nk noov, of "dirname S ?p" vars x scl] obtain e w' where
        l: "loads S json_str (dirname S ?p) vars (or_empty ovs) x None scl ?w1 = (Inl e, w')"
        and t: "trace w' = trace ?w1" by blast
      from None json Some x l
      have "load S (FromPath p) vars ovs None pdk_root scl dd w = (Inl e, w')"
        by (simp add: load_def Let_def io_bind_def read_file_result)
      with t show ?thesis by auto
    qed
  qed
qed

lemma load_from_tcl_no_pdk:
  assumes tcl: "\<not> ends_with (abspath S p) ''.json''" "ends_with (abspath S p) ''.tcl''"
      and nokey: "\<forall>script r cfg. fs_read S (abspath S p) = Some script \<and>
                    env_from_tcl S (tcl_vars S r VNone (VStr []) (dirname S (abspath S p))) script
                      = Some cfg \<longrightarrow>
                    dget (KStr (key_pdk S)) cfg = None"
  shows "\<exists>e w' t. load S (FromPath p) vars ovs None pdk_root scl dd w = (Inl e, w') \<and>
           trace w' = trace w @ t \<and> set (filter file_access t) \<subseteq> {FileRead (abspath S p)}"
proof (cases dd)
  case (Some d)
  then have "load S (FromPath p) vars ovs None pdk_root scl dd w = (Inl DesignDirNotSupported, w)"
    by (simp add: load_def io_raise_def)
  then show ?thesis by auto
next
  case None
  let ?p = "abspath S p"
  let ?w1 = "w\<lparr>trace := trace w @ [FileRead ?p]\<rparr>"
  show ?thesis
  proof (cases "fs_read S ?p")
    case n: None
    with None tcl have "load S (FromPath p) vars ovs None pdk_root scl dd w =
                           (Inl (External ''OSError''), ?w1)"
      by (simp add: load_def Let_def io_bind_def read_file_result)
    then show ?thesis by auto
  next
    case (Some script)
    from resolve_pdk_root_trace [of S pdk_root ?w1] show ?thesis
    proof
      assume "\<exists>e. resolve_pdk_root S pdk_root ?w1 = (Inl e, ?w1)"
      then obtain e where "resolve_pdk_root S pdk_root ?w1 = (Inl e, ?w1)" by blast
      with None tcl Some have "load S (FromPath p) vars ovs None pdk_root scl dd w = (Inl e, ?w1)"
        by (simp add: load_def Let_def io_bind_def read_file_result)
      then show ?thesis by auto
    next
      assume "\<exists>x. resolve_pdk_root S pdk_root ?w1 = (Inr x, ?w1)"
      then obtain x where x: "resolve_pdk_root S pdk_root ?w1 = (Inr x, ?w1)" by blast
      have nk: "\<forall>r cfg. env_from_tcl S (tcl_vars S r VNone (VStr []) (dirname S ?p)) script
                    = Some cfg \<longrightarrow> dget (KStr (key_pdk S)) cfg = None"
        using nokey Some by simp
      from loads_tcl_no_pdk [OF nk, of vars "or_empty ovs" x scl False ?w1] obtain e w' t where
        l: "loads_tcl S script (dirname S ?p) vars (or_empty ovs) x None scl False ?w1 = (Inl e, w')"
        and t: "trace w' = trace ?w1 @ t" "filter file_access t = []" by blast
      from None tcl Some x l
      have "load S (FromPath p) vars ovs None pdk_root scl dd w = (Inl e, w')"
        by (simp add: load_def Let_def io_bind_def read_file_result)
      moreover have "trace w' = trace w @ (FileRead ?p # t)" using t by simp
      moreover have "set (filter file_access (FileRead ?p # t)) \<subseteq> {FileRead ?p}"
        using t by simp
      ultimately show ?thesis by blast
    qed
  qed
qed


lemma json_no_pdk_run:
  "load sys0 (FromPath ''/design/config.json'') [] None None None None None world0 =
     (Inl PdkRequired,
      \<lparr>store = [ODict []], trace = [FileRead ''/design/config.json'']\<rparr>)"
  by code_simp

text \<open>
  C7 (as stated, refuted). The configuration file holds the empty object, so the raw
  input has no technology key, and no technology name is given. The pipeline raises
  the hard error, but the trace shows a file access before it: \<^verbatim>\<open>load\<close> has opened
  and read the configuration file, which is how it knows that the key is missing.
\<close>

theorem missing_pdk_counterexample:
  "fs_read sys0 ''/design/config.json'' = Some ''{}'' \<and>
   json_loads sys0 ''{}'' [] = Some (VRef 0, [ODict []]) \<and>
   load sys0 (FromPath ''/design/config.json'') [] None None None None None world0 =
     (Inl PdkRequired,
      \<lparr>store = [ODict []], trace = [FileRead ''/design/config.json'']\<rparr>) \<and>
   filter file_access [FileRead ''/design/config.json''] \<noteq> []"
  using json_no_pdk_run by (simp add: sys0_def)

text \<open>
  C7 (amended). Let no technology name be given as an argument, and let no override
  string set the technology key. If the raw input has no technology key, \<^verbatim>\<open>load\<close>
  raises a hard error before any access to the technology directory or its files:
  for an in-memory mapping the trace is unchanged, so no file access at all was
  attempted; for a modern file and for a legacy script file, the only file access is
  the read of the configuration file itself.
\<close>

theorem missing_pdk:
  assumes noov: "\<forall>ov\<in>set (or_empty ovs). \<forall>k v. split_eq ov = Some (k, v) \<longrightarrow> k \<noteq> key_pdk S"
  shows "((\<forall>d0. raw < length (store w) \<and> store w ! raw = ODict d0 \<longrightarrow>
              dget (KStr (key_pdk S)) d0 = None) \<longrightarrow>
          (\<exists>e w'. load S (FromDict raw) vars ovs None pdk_root scl dd w = (Inl e, w') \<and>
                  trace w' = trace w)) \<and>
         (ends_with (abspath S p) ''.json'' \<and>
          (\<forall>json_str r objs d0. fs_read S (abspath S p) = Some json_str \<and>
              json_loads S json_str (store w) = Some (VRef r, objs) \<and>
              r < length (store w @ objs) \<and> (store w @ objs) ! r = ODict d0 \<longrightarrow>
              dget (KStr (key_pdk S)) d0 = None) \<longrightarrow>
          (\<exists>e w' t. load S (FromPath p) vars ovs None pdk_root scl dd w = (Inl e, w') \<and>
                  trace w' = trace w @ t \<and>
                  set (filter file_access t) \<subseteq> {FileRead (abspath S p)})) \<and>
         (\<not> ends_with (abspath S p) ''.json'' \<and> ends_with (abspath S p) ''.tcl'' \<and>
          (\<forall>script r cfg. fs_read S (abspath S p) = Some script \<and>
              env_from_tcl S (tcl_vars S r VNone (VStr []) (dirname S (abspath S p))) script
                = Some cfg \<longrightarrow>
              dget (KStr (key_pdk S)) cfg = None) \<longrightarrow>
          (\<exists>e w' t. load S (FromPath p) vars ovs None pdk_root scl dd w = (Inl e, w') \<and>
                  trace w' = trace w @ t \<and>
                  set (filter file_access t) \<subseteq> {FileRead (abspath S p)}))"
proof (intro conjI impI)
  assume "\<forall>d0. raw < length (store w) \<and> store w ! raw = ODict d0 \<longrightarrow>
              dget (KStr (key_pdk S)) d0 = None"
  from load_from_dict_no_pdk [OF this noov]
  show "\<exists>e w'. load S (FromDict raw) vars ovs None pdk_root scl dd w = (Inl e, w') \<and>
                  trace w' = trace w" .
next
  assume a: "ends_with (abspath S p) ''.json'' \<and>
          (\<forall>json_str r objs d0. fs_read S (abspath S p) = Some json_str \<and>
              json_loads S json_str (store w) = Some (VRef r, objs) \<and>
              r < length (store w @ objs) \<and> (store w @ objs) ! r = ODict d0 \<longrightarrow>
              dget (KStr (key_pdk S)) d0 = None)"
  from load_from_json_no_pdk [OF a [THEN conjunct1] a [THEN conjunct2] noov]
  show "\<exists>e w' t. load S (FromPath p) vars ovs None pdk_root scl dd w = (Inl e, w') \<and>
                  trace w' = trace w @ t \<and>
                  set (filter file_access t) \<subseteq> {FileRead (abspath S p)}" .
next
  assume a: "\<not> ends_with (abspath S p) ''.json'' \<and> ends_with (abspath S p) ''.tcl'' \<and>
          (\<forall>script r cfg. fs_read S (abspath S p) = Some script \<and>
              env_from_tcl S (tcl_vars S r VNone (VStr []) (dirname S (abspath S p))) script
                = Some cfg \<longrightarrow>
              dget (KStr (key_pdk S)) cfg = None)"
  from a have 1: "\<not> ends_with (abspath S p) ''.json''" and 2: "ends_with (abspath S p) ''.tcl''"
    and 3: "\<forall>script r cfg. fs_read S (abspath S p) = Some script \<and>
              env_from_tcl S (tcl_vars S r VNone (VStr []) (dirname S (abspath S p))) script
                = Some cfg \<longrightarrow>
              dget (KStr (key_pdk S)) cfg = None" by blast+
  from load_from_tcl_no_pdk [OF 1 2 3]
  show "\<exists>e w' t. load S (FromPath p) vars ovs None pdk_root scl dd w = (Inl e, w') \<and>
                  trace w' = trace w @ t \<and>
                  set (filter file_access t) \<subseteq> {FileRead (abspath S p)}" .
qed

theorem missing_pdk_witness:
  "\<exists>e w'. load sys0 (FromDict 0) [] (Some [''CLOCK_PERIOD=10'']) None None None (Some ''/design'')
             \<lparr>store = [ODict [(KStr ''DESIGN_NAME'', VStr ''spm'')]], trace = []\<rparr> = (Inl e, w') \<and>
          trace w' = []"
proof -
  have s: "split_eq ''CLOCK_PERIOD=10'' = Some (''CLOCK_PERIOD'', ''10'')" by code_simp
  have noov: "\<forall>ov\<in>set (or_empty (Some [''CLOCK_PERIOD=10''])).
                \<forall>k v. split_eq ov = Some (k, v) \<longrightarrow> k \<noteq> key_pdk sys0"
    by (simp add: or_empty_def s sys0_def del: split_eq.simps)
  let ?w = "\<lparr>store = [ODict [(KStr ''DESIGN_NAME'', VStr ''spm'')]], trace = []\<rparr>"
  have nokey: "\<forall>d0. 0 < length (store ?w) \<and> store ?w ! 0 = ODict d0 \<longrightarrow>
                 dget (KStr (key_pdk sys0)) d0 = None"
    by (simp add: sys0_def dget_def)
  from missing_pdk [OF noov, THEN conjunct1, THEN mp, OF nokey]
  show ?thesis by simp
qed

end
